theory Spec2Isabelle
  imports Main "HOL-Library.Sublist"
begin

section \<open>Checkpoint scheduler (App.tsx, getLatestCheckpoint)\<close>

text \<open>
  Timestamps are the integers of \<open>Date.getTime()\<close>: milliseconds since the epoch.
  The local calendar is modelled with a fixed offset \<open>tz\<close> (milliseconds to add to a
  timestamp to obtain local wall-clock time), so every local day has 24 hours; daylight
  saving transitions are outside the model.
\<close>

definition HOUR :: int where
  "HOUR = 3600000"

definition DAY :: int where
  "DAY = 24 * HOUR"

text \<open>\<open>d.setHours(h, 0, 0, 0)\<close>: the same local day, at \<open>h\<close>:00:00.000.\<close>

definition setHours :: "int \<Rightarrow> int \<Rightarrow> int \<Rightarrow> int" where
  "setHours tz h t = ((t + tz) div DAY) * DAY + h * HOUR - tz"

text \<open>\<open>d.setDate(d.getDate() - 1)\<close>: the previous local day, same time of day.\<close>

definition setDatePrev :: "int \<Rightarrow> int" where
  "setDatePrev t = t - DAY"

definition getLatestCheckpoint :: "int \<Rightarrow> int \<Rightarrow> int" where
  "getLatestCheckpoint tz now =
     (let c1 = setHours tz 5 now;
          c2 = setHours tz 17 now
      in if now < c1 then
           (let yesterday17 = setHours tz 17 (setDatePrev now) in yesterday17)
         else if now < c2 then c1
         else c2)"

text \<open>Local day number and local time of day of a timestamp.\<close>

definition localDay :: "int \<Rightarrow> int \<Rightarrow> int" where
  "localDay tz t = (t + tz) div DAY"

definition timeOfDay :: "int \<Rightarrow> int \<Rightarrow> int" where
  "timeOfDay tz t = (t + tz) mod DAY"

text \<open>The timestamp of local time \<open>h\<close>:00 on local day \<open>d\<close>.\<close>

definition atHour :: "int \<Rightarrow> int \<Rightarrow> int \<Rightarrow> int" where
  "atHour tz d h = d * DAY + h * HOUR - tz"

text \<open>A refresh boundary: 05:00 or 17:00 local time of some day.\<close>

definition isBoundary :: "int \<Rightarrow> int \<Rightarrow> bool" where
  "isBoundary tz t = (timeOfDay tz t = 5 * HOUR \<or> timeOfDay tz t = 17 * HOUR)"


section \<open>Repository records (types.ts, extended by the metadata fields)\<close>

text \<open>
  \<open>Repo\<close> with its optional enrichment. An optional field is \<open>None\<close> when the property
  is absent (or \<open>null\<close>) on the JavaScript object.
\<close>

record Repo =
  name :: string
  url :: string
  description :: string
  starsTrend :: string
  tags :: "string list"
  lastPushedAt :: "string option"
  isArchived :: "bool option"
  starsCount :: "int option"
  language :: "string option"
  isRateLimited :: "bool option"


section \<open>Status tiering (RepoCard, getStatusInfo)\<close>

text \<open>
  The nine objects \<open>getStatusInfo\<close> can return, named by their labels; \<open>STANDBY\<close> is the
  one labelled IDLE (\<open>IDLE\<close> itself is a value of \<open>AppStatus\<close>).
\<close>

datatype StatusTier =
    FROZEN | SECURE | UNKNOWN | CRITICAL | ONLINE | STABLE | STANDBY | DECAY | OFFLINE

text \<open>
  \<open>Math.floor(diffMs / (1000 * 3600 * 24))\<close>; \<open>None\<close> is \<open>NaN\<close>, the value obtained when
  \<open>new Date(repo.lastPushedAt)\<close> is an invalid date.
\<close>

definition daysSincePush :: "int \<Rightarrow> int option \<Rightarrow> int option" where
  "daysSincePush now lastPush =
     (case lastPush of
        None \<Rightarrow> None
      | Some t \<Rightarrow> (let diffMs = now - t in Some (diffMs div (1000 * 3600 * 24))))"

text \<open>\<open>d <= k\<close> on a possibly-\<open>NaN\<close> number: every comparison with \<open>NaN\<close> is false.\<close>

definition leNum :: "int option \<Rightarrow> int \<Rightarrow> bool" where
  "leNum d k = (case d of None \<Rightarrow> False | Some x \<Rightarrow> x \<le> k)"

text \<open>
  \<open>parseDate\<close> is the \<open>Date\<close> constructor on a string (\<open>None\<close> for an invalid date);
  \<open>now\<close> is the clock reading of \<open>new Date()\<close>.
\<close>

definition getStatusInfo :: "(string \<Rightarrow> int option) \<Rightarrow> int \<Rightarrow> Repo \<Rightarrow> StatusTier" where
  "getStatusInfo parseDate now repo =
     (if isArchived repo = Some True then FROZEN
      else if isRateLimited repo = Some True then SECURE
      else
        (case lastPushedAt repo of
           None \<Rightarrow> UNKNOWN
         | Some pushed \<Rightarrow>
             if pushed = [] then UNKNOWN
             else
               (let d = daysSincePush now (parseDate pushed)
                in if leNum d 3 then CRITICAL
                   else if leNum d 7 then ONLINE
                   else if leNum d 30 then STABLE
                   else if leNum d 90 then STANDBY
                   else if leNum d 180 then DECAY
                   else OFFLINE)))"


section \<open>Candidate validation (geminiService, fetchRepoDetails and fetchTrendingRepos)\<close>

text \<open>
  What \<open>fetch\<close> on the metadata endpoint can produce: a thrown network error, or a
  response with a status code and a body; the body is \<open>None\<close> when \<open>response.json()\<close>
  throws.
\<close>

record GitHubData =
  pushed_at :: "string option"
  archived :: "bool option"
  stargazers_count :: "int option"
  gh_language :: "string option"

datatype Response = NetworkError | Http nat "GitHubData option"

definition response_ok :: "nat \<Rightarrow> bool" where
  "response_ok code = (200 \<le> code \<and> code \<le> 299)"

text \<open>
  \<open>Partial<Repo>\<close> as \<open>fetchRepoDetails\<close> builds it. The outer \<open>option\<close> says whether the
  key is on the object; the inner one is the value, as in \<open>Repo\<close>.
\<close>

record RepoDetails =
  d_lastPushedAt :: "string option option"
  d_isArchived :: "bool option option"
  d_starsCount :: "int option option"
  d_language :: "string option option"
  d_isRateLimited :: "bool option option"

text \<open>The object \<open>{ isRateLimited: true }\<close>.\<close>

definition rateLimitedDetails :: RepoDetails where
  "rateLimitedDetails =
     \<lparr>d_lastPushedAt = None, d_isArchived = None, d_starsCount = None, d_language = None,
      d_isRateLimited = Some (Some True)\<rparr>"

text \<open>
  The metadata endpoint is a parameter \<open>fetch\<close>, a function of the queried name: it
  answers the same during one validation run. \<open>None\<close> is the \<open>null\<close> result.
\<close>

definition fetchRepoDetails :: "(string \<Rightarrow> Response) \<Rightarrow> string \<Rightarrow> RepoDetails option" where
  "fetchRepoDetails fetch nm =
     (case fetch nm of
        NetworkError \<Rightarrow> Some rateLimitedDetails
      | Http code body \<Rightarrow>
          if code = 404 then None
          else if code = 403 \<or> code = 429 then Some rateLimitedDetails
          else if \<not> response_ok code then None
          else (case body of
                  None \<Rightarrow> Some rateLimitedDetails
                | Some data \<Rightarrow>
                    Some \<lparr>d_lastPushedAt = Some (pushed_at data),
                          d_isArchived = Some (archived data),
                          d_starsCount = Some (stargazers_count data),
                          d_language = Some (gh_language data),
                          d_isRateLimited = Some (Some False)\<rparr>))"

text \<open>\<open>s.replace(/^https?:\/\/github\.com\//, '')\<close>\<close>

definition stripUrlPrefix :: "string \<Rightarrow> string" where
  "stripUrlPrefix s =
     (if prefix ''https://github.com/'' s then drop (length ''https://github.com/'') s
      else if prefix ''http://github.com/'' s then drop (length ''http://github.com/'') s
      else s)"

text \<open>\<open>s.replace(/\.git$/, '')\<close>\<close>

definition stripDotGit :: "string \<Rightarrow> string" where
  "stripDotGit s = (if suffix ''.git'' s then take (length s - length ''.git'') s else s)"

text \<open>
  \<open>s.trim()\<close> removes white space and line terminators at both ends. A string is
  its UTF-8 bytes here, so each of JavaScript's white space characters is the byte
  sequence of its encoding: U+0009 to U+000D, U+0020, U+00A0, U+1680, U+2000 to U+200A,
  U+2028, U+2029, U+202F, U+205F, U+3000 and U+FEFF.
\<close>

definition whiteSpace :: "string list" where
  "whiteSpace =
     [[CHR 0x09], [CHR 0x0A], [CHR 0x0B], [CHR 0x0C], [CHR 0x0D], [CHR 0x20],
      [CHR 0xC2, CHR 0xA0],
      [CHR 0xE1, CHR 0x9A, CHR 0x80],
      [CHR 0xE2, CHR 0x80, CHR 0x80], [CHR 0xE2, CHR 0x80, CHR 0x81],
      [CHR 0xE2, CHR 0x80, CHR 0x82], [CHR 0xE2, CHR 0x80, CHR 0x83],
      [CHR 0xE2, CHR 0x80, CHR 0x84], [CHR 0xE2, CHR 0x80, CHR 0x85],
      [CHR 0xE2, CHR 0x80, CHR 0x86], [CHR 0xE2, CHR 0x80, CHR 0x87],
      [CHR 0xE2, CHR 0x80, CHR 0x88], [CHR 0xE2, CHR 0x80, CHR 0x89],
      [CHR 0xE2, CHR 0x80, CHR 0x8A],
      [CHR 0xE2, CHR 0x80, CHR 0xA8], [CHR 0xE2, CHR 0x80, CHR 0xA9],
      [CHR 0xE2, CHR 0x80, CHR 0xAF],
      [CHR 0xE2, CHR 0x81, CHR 0x9F],
      [CHR 0xE3, CHR 0x80, CHR 0x80],
      [CHR 0xEF, CHR 0xBB, CHR 0xBF]]"

text \<open>
  Removing the characters \<open>ws\<close> from the front of a string, one after the other, until
  none of them begins it.
\<close>

function stripLeading :: "string list \<Rightarrow> string \<Rightarrow> string" where
  "stripLeading ws s =
     (case find (\<lambda>w. w \<noteq> [] \<and> prefix w s) ws of
        None \<Rightarrow> s
      | Some w \<Rightarrow> stripLeading ws (drop (length w) s))"
  by pat_completeness auto
termination
  by (relation "measure (\<lambda>(ws, s). length s)") (auto simp: find_Some_iff prefix_def)

declare stripLeading.simps [simp del]

text \<open>The end of the string is trimmed as the front of the reversed string.\<close>

definition trim :: "string \<Rightarrow> string" where
  "trim s = rev (stripLeading (map rev whiteSpace) (rev (stripLeading whiteSpace s)))"

text \<open>\<open>if (s.endsWith('/')) s = s.slice(0, -1)\<close>\<close>

definition stripSlash :: "string \<Rightarrow> string" where
  "stripSlash s = (if suffix ''/'' s then butlast s else s)"

definition cleanName :: "string \<Rightarrow> string" where
  "cleanName nm = stripSlash (trim (stripDotGit (stripUrlPrefix nm)))"

text \<open>\<open>{ ...repo, name: cleanName, ...details }\<close>: a key of \<open>details\<close> overrides the candidate's.\<close>

definition spread :: "'a \<Rightarrow> 'a option \<Rightarrow> 'a" where
  "spread old new = (case new of None \<Rightarrow> old | Some v \<Rightarrow> v)"

definition mergeDetails :: "Repo \<Rightarrow> string \<Rightarrow> RepoDetails \<Rightarrow> Repo" where
  "mergeDetails repo cn details =
     repo\<lparr>name := cn,
          lastPushedAt := spread (lastPushedAt repo) (d_lastPushedAt details),
          isArchived := spread (isArchived repo) (d_isArchived details),
          starsCount := spread (starsCount repo) (d_starsCount details),
          language := spread (language repo) (d_language details),
          isRateLimited := spread (isRateLimited repo) (d_isRateLimited details)\<rparr>"

definition TARGET_COUNT :: nat where
  "TARGET_COUNT = 10"

text \<open>
  The \<open>for (const repo of allCandidates)\<close> loop, with \<open>validRepos\<close> as the accumulator.
  The first branch is the \<open>break\<close>, the next two are the \<open>continue\<close>s.
\<close>

fun validateLoop :: "(string \<Rightarrow> Response) \<Rightarrow> Repo list \<Rightarrow> Repo list \<Rightarrow> Repo list" where
  "validateLoop fetch [] validRepos = validRepos"
| "validateLoop fetch (repo # rest) validRepos =
     (if length validRepos \<ge> TARGET_COUNT then validRepos
      else if name repo = [] then validateLoop fetch rest validRepos
      else if CHR ''/'' \<notin> set (cleanName (name repo)) then validateLoop fetch rest validRepos
      else (case fetchRepoDetails fetch (cleanName (name repo)) of
              Some details \<Rightarrow>
                validateLoop fetch rest
                  (validRepos @ [mergeDetails repo (cleanName (name repo)) details])
            | None \<Rightarrow> validateLoop fetch rest validRepos))"

datatype ScanError = NoValidRepos

text \<open>Step 4 of \<open>fetchTrendingRepos\<close>: the loop, then the empty-result error.\<close>

definition validateCandidates :: "(string \<Rightarrow> Response) \<Rightarrow> Repo list \<Rightarrow> ScanError + Repo list" where
  "validateCandidates fetch allCandidates =
     (let validRepos = validateLoop fetch allCandidates []
      in if length validRepos = 0 then Inl NoValidRepos else Inr validRepos)"

text \<open>
  What one iteration does with a candidate when the target is not reached: \<open>None\<close> when
  the candidate is skipped, the entry pushed otherwise.
\<close>

definition nameCheck :: "Repo \<Rightarrow> string option" where
  "nameCheck repo =
     (if name repo = [] then None
      else if CHR ''/'' \<notin> set (cleanName (name repo)) then None
      else Some (cleanName (name repo)))"

definition accept :: "(string \<Rightarrow> Response) \<Rightarrow> Repo \<Rightarrow> Repo option" where
  "accept fetch repo =
     (case nameCheck repo of
        None \<Rightarrow> None
      | Some cn \<Rightarrow>
          (case fetchRepoDetails fetch cn of
             None \<Rightarrow> None
           | Some details \<Rightarrow> Some (mergeDetails repo cn details)))"


section \<open>Persisted values (localStorage, JSON)\<close>

text \<open>
  The values \<open>JSON.parse\<close> produces. Numbers are integers, which is what the timestamps
  of \<open>Date.now()\<close> are; an object is its list of key-value pairs, one pair per key.
\<close>

datatype json =
    JNull | JBool bool | JNum int | JStr string | JArr "json list" | JObj "(string \<times> json) list"

text \<open>
  A string held by \<open>localStorage\<close> is either text that \<open>JSON.parse\<close> rejects (the empty
  string among them) or the text of a JSON value, identified with that value: what
  \<open>JSON.stringify\<close> writes, \<open>JSON.parse\<close> reads back.
\<close>

datatype blob = Malformed string | Json json

datatype JsError = SyntaxError | TypeError

definition JSON_parse :: "blob \<Rightarrow> JsError + json" where
  "JSON_parse b = (case b of Malformed t \<Rightarrow> Inl SyntaxError | Json j \<Rightarrow> Inr j)"

definition JSON_stringify :: "json \<Rightarrow> blob" where
  "JSON_stringify j = Json j"

text \<open>\<open>!stored\<close> on a string read from storage: only the empty string is falsy.\<close>

definition emptyText :: "blob \<Rightarrow> bool" where
  "emptyText b = (b = Malformed [])"

text \<open>
  Property access \<open>v.key\<close> for a key that is not built in (\<open>data\<close>, \<open>timestamp\<close>,
  \<open>name\<close>): a \<open>TypeError\<close> on \<open>null\<close>, \<open>undefined\<close> (\<open>None\<close>) on a missing key and on
  every value that is not an object.
\<close>

definition getProp :: "json \<Rightarrow> string \<Rightarrow> JsError + json option" where
  "getProp v k =
     (case v of
        JNull \<Rightarrow> Inl TypeError
      | JObj kvs \<Rightarrow> Inr (map_of kvs k)
      | _ \<Rightarrow> Inr None)"

text \<open>JavaScript truthiness, as \<open>!v\<close> tests it.\<close>

definition truthy :: "json option \<Rightarrow> bool" where
  "truthy v =
     (case v of
        None \<Rightarrow> False
      | Some JNull \<Rightarrow> False
      | Some (JBool b) \<Rightarrow> b
      | Some (JNum n) \<Rightarrow> n \<noteq> 0
      | Some (JStr t) \<Rightarrow> t \<noteq> []
      | Some (JArr xs) \<Rightarrow> True
      | Some (JObj kvs) \<Rightarrow> True)"

text \<open>
  \<open>v < k\<close> for a number \<open>k\<close>. A JSON number compares as it is; any other value is first
  coerced by JavaScript's \<open>ToNumber\<close>, the parameter \<open>toNum\<close> (\<open>None\<close> is \<open>NaN\<close>, for
  which the comparison is false).
\<close>

definition jsLess :: "(json \<Rightarrow> int option) \<Rightarrow> json option \<Rightarrow> int \<Rightarrow> bool" where
  "jsLess toNum v k =
     (case v of
        Some (JNum n) \<Rightarrow> n < k
      | Some w \<Rightarrow> (case toNum w of None \<Rightarrow> False | Some n \<Rightarrow> n < k)
      | None \<Rightarrow> False)"

text \<open>A \<open>Repo\<close> as \<open>JSON.stringify\<close> writes it: absent optional fields are left out.\<close>

definition optField :: "string \<Rightarrow> ('a \<Rightarrow> json) \<Rightarrow> 'a option \<Rightarrow> (string \<times> json) list" where
  "optField k enc v = (case v of None \<Rightarrow> [] | Some x \<Rightarrow> [(k, enc x)])"

definition repoToJson :: "Repo \<Rightarrow> json" where
  "repoToJson r =
     JObj ([(''name'', JStr (name r)),
            (''url'', JStr (url r)),
            (''description'', JStr (description r)),
            (''starsTrend'', JStr (starsTrend r)),
            (''tags'', JArr (map JStr (tags r)))]
           @ optField ''lastPushedAt'' JStr (lastPushedAt r)
           @ optField ''isArchived'' JBool (isArchived r)
           @ optField ''starsCount'' JNum (starsCount r)
           @ optField ''language'' JStr (language r)
           @ optField ''isRateLimited'' JBool (isRateLimited r))"

definition reposJson :: "Repo list \<Rightarrow> json" where
  "reposJson rs = JArr (map repoToJson rs)"

text \<open>Property access \<open>v.key\<close> on a value that is known not to be \<open>null\<close>.\<close>

definition field :: "json \<Rightarrow> string \<Rightarrow> json option" where
  "field v k = (case v of JObj kvs \<Rightarrow> map_of kvs k | _ \<Rightarrow> None)"


section \<open>Application state (App.tsx)\<close>

datatype TimeFrame = TF3d | TF7d | TF14d

datatype AppStatus = IDLE | SCANNING | ANALYZING | COMPLETE | ERROR

fun frameText :: "TimeFrame \<Rightarrow> string" where
  "frameText TF3d = ''3d''"
| "frameText TF7d = ''7d''"
| "frameText TF14d = ''14d''"

definition CACHE_PREFIX :: string where
  "CACHE_PREFIX = ''cybergit_cache_''"

definition FAV_STORAGE_KEY :: string where
  "FAV_STORAGE_KEY = ''cybergit_fav_vault''"

text \<open>
  The lines \<open>addLog\<close> appends, by kind and with the values they interpolate (the
  wording and the elapsed time of the completion line are not modelled).
\<close>

datatype LogLine =
    LogInitialized
  | LogWaiting
  | LogReady
  | LogCacheExpired "json option"
  | LogCacheLoaded TimeFrame
  | LogForceRefresh
  | LogScanStart TimeFrame
  | LogScanComplete nat
  | LogFatal string
  | LogStaleRestored
  | LogFavRemoved string
  | LogFavAdded string

text \<open>
  The component's state: the \<open>useState\<close> cells, the \<open>activeTabRef\<close> ref and the browser's
  \<open>localStorage\<close>. TypeScript checks nothing where a parsed value is stored in a cell
  (\<open>setRepos(parsed.data)\<close>, \<open>setFavorites(parsed)\<close>, \<open>setLastUpdated(parsed.timestamp)\<close>),
  so the cells \<open>repos\<close>, \<open>favorites\<close> and \<open>lastUpdated\<close> hold JavaScript values as they
  are: a list of \<open>Repo\<close> records is the array of their objects, \<open>None\<close> is \<open>undefined\<close>.
  What a later render does with a cell is not part of the model.
\<close>

record App =
  activeTab :: TimeFrame
  activeTabRef :: TimeFrame
  repos :: "json option"
  favorites :: json
  status :: AppStatus
  logs :: "LogLine list"
  lastUpdated :: "json option"
  localStorage :: "string \<rightharpoonup> blob"

definition addLog :: "LogLine \<Rightarrow> App \<Rightarrow> App" where
  "addLog msg s = s\<lparr>logs := logs s @ [msg]\<rparr>"

text \<open>
  \<open>loadCache\<close> returns the parsed entry or \<open>null\<close> (\<open>None\<close>), and the state, which it
  changes only by logging. Every exception of the \<open>try\<close> block ends in the \<open>catch\<close>,
  which returns \<open>null\<close>.
\<close>

definition loadCache ::
  "(json \<Rightarrow> int option) \<Rightarrow> int \<Rightarrow> int \<Rightarrow> TimeFrame \<Rightarrow> App \<Rightarrow> json option \<times> App" where
  "loadCache toNum tz now frame s =
     (case localStorage s (CACHE_PREFIX @ frameText frame) of
        None \<Rightarrow> (None, s)
      | Some stored \<Rightarrow>
          if emptyText stored then (None, s)
          else
            (case JSON_parse stored of
               Inl e \<Rightarrow> (None, s)
             | Inr parsed \<Rightarrow>
                 (case getProp parsed ''data'' of
                    Inl e \<Rightarrow> (None, s)
                  | Inr data \<Rightarrow>
                      if \<not> truthy data then (None, s)
                      else
                        (case getProp parsed ''timestamp'' of
                           Inl e \<Rightarrow> (None, s)
                         | Inr ts \<Rightarrow>
                             if \<not> truthy ts then (None, s)
                             else
                               (let checkpoint = getLatestCheckpoint tz now
                                in if jsLess toNum ts checkpoint
                                   then (None, addLog (LogCacheExpired ts) s)
                                   else (Some parsed, s))))))"

definition cacheEntry :: "Repo list \<Rightarrow> int \<Rightarrow> json" where
  "cacheEntry data timestamp =
     JObj [(''data'', reposJson data), (''timestamp'', JNum timestamp)]"

definition saveCache :: "int \<Rightarrow> TimeFrame \<Rightarrow> Repo list \<Rightarrow> App \<Rightarrow> App" where
  "saveCache now frame data s =
     (let timestamp = now;
          s1 = s\<lparr>localStorage :=
                  (localStorage s)(CACHE_PREFIX @ frameText frame \<mapsto>
                     JSON_stringify (cacheEntry data timestamp))\<rparr>
      in if activeTabRef s1 = frame then s1\<lparr>lastUpdated := Some (JNum timestamp)\<rparr> else s1)"

text \<open>
  \<open>handleScan\<close> is asynchronous: it runs up to \<open>await fetchTrendingRepos(frame)\<close>, and
  resumes, after other handlers may have run, when the promise is fulfilled or rejected.
  The three parts are three functions. \<open>handleScan_start\<close> also says whether the scan
  went on to the network (\<open>True\<close>) or returned from the cache.
\<close>

definition handleScan_start ::
  "(json \<Rightarrow> int option) \<Rightarrow> int \<Rightarrow> int \<Rightarrow> TimeFrame \<Rightarrow> bool \<Rightarrow> App \<Rightarrow> App \<times> bool" where
  "handleScan_start toNum tz now frame forceRefresh s =
     (let s1 = s\<lparr>activeTab := frame, activeTabRef := frame\<rparr>;
          (cached, s2) = (if \<not> forceRefresh then loadCache toNum tz now frame s1 else (None, s1))
      in case cached of
           Some entry \<Rightarrow>
             (addLog (LogCacheLoaded frame)
                (s2\<lparr>repos := field entry ''data'',
                    lastUpdated := field entry ''timestamp'',
                    status := COMPLETE\<rparr>),
              False)
         | None \<Rightarrow>
             ((addLog (if forceRefresh then LogForceRefresh else LogScanStart frame)
                 (s2\<lparr>status := SCANNING\<rparr>))\<lparr>repos := Some (reposJson [])\<rparr>,
              True))"

text \<open>After the \<open>await\<close>, with the fetched \<open>results\<close>; \<open>now\<close> is \<open>Date.now()\<close> in \<open>saveCache\<close>.\<close>

definition handleScan_fulfilled :: "int \<Rightarrow> TimeFrame \<Rightarrow> Repo list \<Rightarrow> App \<Rightarrow> App" where
  "handleScan_fulfilled now frame results s =
     (if activeTabRef s \<noteq> frame then s
      else
        addLog (LogScanComplete (length results))
          ((saveCache now frame results (s\<lparr>repos := Some (reposJson results)\<rparr>))
             \<lparr>status := COMPLETE\<rparr>))"

text \<open>
  The \<open>catch\<close> block, with the error's message. Nothing catches what the block itself
  throws: the second component is the exception with which \<open>handleScan\<close>'s promise is
  then rejected, and the state is the one reached when it was thrown.
\<close>

definition handleScan_rejected :: "TimeFrame \<Rightarrow> string \<Rightarrow> App \<Rightarrow> App \<times> JsError option" where
  "handleScan_rejected frame message s =
     (if activeTabRef s \<noteq> frame then (s, None)
      else
        (let s1 = addLog (LogFatal message) (s\<lparr>status := ERROR\<rparr>)
         in case localStorage s1 (CACHE_PREFIX @ frameText frame) of
              None \<Rightarrow> (s1, None)
            | Some staleCache \<Rightarrow>
                if emptyText staleCache then (s1, None)
                else
                  (case JSON_parse staleCache of
                     Inl e \<Rightarrow> (s1, Some e)
                   | Inr parsed \<Rightarrow>
                       (case getProp parsed ''data'' of
                          Inl e \<Rightarrow> (s1, Some e)
                        | Inr data \<Rightarrow>
                            (case getProp parsed ''timestamp'' of
                               Inl e \<Rightarrow> (s1\<lparr>repos := data\<rparr>, Some e)
                             | Inr ts \<Rightarrow>
                                 (addLog LogStaleRestored
                                    (s1\<lparr>repos := data, lastUpdated := ts\<rparr>),
                                  None))))))"

text \<open>
  \<open>prev.some(f => f.name === repo.name)\<close> on the elements of an array, from the left and
  up to the first match; reading \<open>.name\<close> of \<open>null\<close> throws. \<open>repo.name\<close> is a string, so
  the comparison holds only for an element whose \<open>name\<close> is that string.
\<close>

fun someNamed :: "string \<Rightarrow> json list \<Rightarrow> JsError + bool" where
  "someNamed nm [] = Inr False"
| "someNamed nm (f # fs) =
     (case getProp f ''name'' of
        Inl e \<Rightarrow> Inl e
      | Inr v \<Rightarrow> if v = Some (JStr nm) then Inr True else someNamed nm fs)"

text \<open>\<open>prev.filter(f => f.name !== repo.name)\<close>, which visits every element.\<close>

fun filterNotNamed :: "string \<Rightarrow> json list \<Rightarrow> JsError + json list" where
  "filterNotNamed nm [] = Inr []"
| "filterNotNamed nm (f # fs) =
     (case getProp f ''name'' of
        Inl e \<Rightarrow> Inl e
      | Inr v \<Rightarrow>
          (case filterNotNamed nm fs of
             Inl e \<Rightarrow> Inl e
           | Inr kept \<Rightarrow> Inr (if v \<noteq> Some (JStr nm) then f # kept else kept)))"

text \<open>
  The updater that \<open>toggleFavorite\<close> passes to \<open>setFavorites\<close>, applied to the state. Calling
  \<open>some\<close> on a value that is not an array throws; an exception leaves the updater before
  it logs or writes.
\<close>

definition toggleFavorite :: "Repo \<Rightarrow> App \<Rightarrow> JsError + App" where
  "toggleFavorite repo s =
     (case favorites s of
        JArr prev \<Rightarrow>
          (case someNamed (name repo) prev of
             Inl e \<Rightarrow> Inl e
           | Inr exists \<Rightarrow>
               (case (if exists then filterNotNamed (name repo) prev
                      else Inr (prev @ [repoToJson repo])) of
                  Inl e \<Rightarrow> Inl e
                | Inr newFavs \<Rightarrow>
                    (let s1 =
                           addLog (if exists then LogFavRemoved (name repo)
                                   else LogFavAdded (name repo)) s;
                         s2 = s1\<lparr>localStorage :=
                                  (localStorage s1)(FAV_STORAGE_KEY \<mapsto>
                                     JSON_stringify (JArr newFavs))\<rparr>
                     in Inr (s2\<lparr>favorites := JArr newFavs\<rparr>))))
      | _ \<Rightarrow> Inl TypeError)"

text \<open>One handler after another; an exception ends the run.\<close>

definition andThen :: "JsError + App \<Rightarrow> (App \<Rightarrow> JsError + App) \<Rightarrow> JsError + App" where
  "andThen r h = (case r of Inl e \<Rightarrow> Inl e | Inr s \<Rightarrow> h s)"

text \<open>\<open>Array.isArray(parsed) && parsed.length > 0 && typeof parsed[0] === 'string'\<close>\<close>

definition isLegacyFavorites :: "json \<Rightarrow> bool" where
  "isLegacyFavorites parsed =
     (case parsed of
        JArr (JStr t # rest) \<Rightarrow> True
      | _ \<Rightarrow> False)"

text \<open>The favorites part of the initial load effect.\<close>

definition loadFavorites :: "App \<Rightarrow> App" where
  "loadFavorites s =
     (case localStorage s FAV_STORAGE_KEY of
        None \<Rightarrow> s
      | Some storedFavs \<Rightarrow>
          if emptyText storedFavs then s
          else
            (case JSON_parse storedFavs of
               Inl e \<Rightarrow> s
             | Inr parsed \<Rightarrow>
                 if isLegacyFavorites parsed
                 then s\<lparr>localStorage := (localStorage s)(FAV_STORAGE_KEY := None)\<rparr>
                 else s\<lparr>favorites := parsed\<rparr>))"

text \<open>The state \<open>useState\<close> and \<open>useRef\<close> set up, over the browser's storage.\<close>

definition initialApp :: "(string \<rightharpoonup> blob) \<Rightarrow> App" where
  "initialApp storage =
     \<lparr>activeTab = TF3d, activeTabRef = TF3d, repos = Some (reposJson []),
      favorites = reposJson [], status = IDLE, logs = [LogInitialized, LogWaiting],
      lastUpdated = Some JNull, localStorage = storage\<rparr>"

text \<open>The initial load effect, up to the \<open>await\<close> of the scan it starts.\<close>

definition initialLoad :: "(json \<Rightarrow> int option) \<Rightarrow> int \<Rightarrow> int \<Rightarrow> App \<Rightarrow> App \<times> bool" where
  "initialLoad toNum tz now s =
     handleScan_start toNum tz now TF3d False (loadFavorites (addLog LogReady s))"


section \<open>Names in canonical form, and example data\<close>

text \<open>
  A name in canonical form: no white space at either end, no trailing slash or \<open>.git\<close>,
  and no URL scheme \<open>http:\<close> or \<open>https:\<close> in front.
\<close>

definition plainName :: "string \<Rightarrow> bool" where
  "plainName n =
     (trim n = n \<and> \<not> suffix ''/'' n \<and> \<not> suffix ''.git'' n \<and>
      \<not> prefix ''http:'' n \<and> \<not> prefix ''https:'' n)"

text \<open>
  Example data: a candidate as the language model proposes it, and metadata endpoints
  that do not know \<open>o/r4\<close> (and, for the first, rate-limit \<open>o/r7\<close>).
\<close>

definition candidate :: "string \<Rightarrow> Repo" where
  "candidate nm =
     \<lparr>name = nm, url = ''https://github.com/'' @ nm, description = ''demo'',
      starsTrend = ''+100 stars/day'', tags = [''AI''], lastPushedAt = None, isArchived = None,
      starsCount = None, language = None, isRateLimited = None\<rparr>"

definition demoData :: GitHubData where
  "demoData =
     \<lparr>pushed_at = Some ''2024-05-01T12:00:00Z'', archived = Some False,
      stargazers_count = Some 1200, gh_language = Some ''TypeScript''\<rparr>"

definition demoFetch :: "string \<Rightarrow> Response" where
  "demoFetch nm =
     (if nm = ''o/r4'' then Http 404 None
      else if nm = ''o/r7'' then Http 403 None
      else Http 200 (Some demoData))"

definition okFetch :: "string \<Rightarrow> Response" where
  "okFetch nm = (if nm = ''o/r4'' then Http 404 None else Http 200 (Some demoData))"

definition firstThree :: "Repo list" where
  "firstThree = map candidate [''o/r1'', ''https://github.com/o/r2'', ''o/r3.git'']"

definition lastSix :: "Repo list" where
  "lastSix = map candidate [''o/r5'', ''o/r6/'', ''o/r7'', ''o/r8'', ''o/r9'', ''o/r10'']"

text \<open>Example data for the status tiers: a repository with given flags and push time.\<close>

definition tierRepo :: "bool option \<Rightarrow> bool option \<Rightarrow> string option \<Rightarrow> Repo" where
  "tierRepo a r p = (candidate ''o/r1'')\<lparr>lastPushedAt := p, isArchived := a, isRateLimited := r\<rparr>"

definition epochDate :: "string \<Rightarrow> int option" where
  "epochDate t = (if t = ''1970-01-01T00:00:00Z'' then Some 0 else None)"

text \<open>
  Example data for the cache: a coercion for values that are not numerals (\<open>ToNumber\<close>
  gives \<open>NaN\<close> for the text \<open>abc\<close>), an entry written one millisecond before the 05:00
  boundary of day 0 and one written at it, an entry with timestamp 0, an entry whose
  timestamp is the text \<open>abc\<close>, and a freshly mounted application over a storage with
  one cache blob.
\<close>

definition noCoercion :: "json \<Rightarrow> int option" where
  "noCoercion v = None"

definition staleEntry :: json where
  "staleEntry = cacheEntry [candidate ''o/r1''] (atHour 0 0 5 - 1)"

definition freshEntry :: json where
  "freshEntry = cacheEntry [candidate ''o/r1''] (atHour 0 0 5)"

definition zeroEntry :: json where
  "zeroEntry = cacheEntry [candidate ''o/r1''] 0"

definition textEntry :: json where
  "textEntry = JObj [(''data'', reposJson [candidate ''o/r1'']), (''timestamp'', JStr ''abc'')]"

definition appWith :: "TimeFrame \<Rightarrow> blob \<Rightarrow> App" where
  "appWith frame b = initialApp (Map.empty(CACHE_PREFIX @ frameText frame \<mapsto> b))"

text \<open>
  Example data for the favorites: the state after two candidates have been made
  favorites, a later scan's record of the first of them, and a storage left by the old
  version of the application.
\<close>

definition vaultApp :: App where
  "vaultApp =
     (initialApp Map.empty)
       \<lparr>favorites := reposJson [candidate ''o/r1'', candidate ''o/r2''],
        logs := [LogInitialized, LogWaiting, LogFavAdded ''o/r1'', LogFavAdded ''o/r2''],
        localStorage :=
          Map.empty(FAV_STORAGE_KEY \<mapsto>
            Json (reposJson [candidate ''o/r1'', candidate ''o/r2'']))\<rparr>"

definition rescanned :: Repo where
  "rescanned = (candidate ''o/r1'')\<lparr>starsCount := Some 99\<rparr>"

definition legacyStorage :: "string \<rightharpoonup> blob" where
  "legacyStorage = Map.empty(FAV_STORAGE_KEY \<mapsto> Json (JArr (map JStr [''a/b'', ''c/d''])))"

text \<open>Example data for the scan orchestrator: the results of three scans.\<close>

definition raceA :: "Repo list" where
  "raceA = [candidate ''o/r1'']"

definition raceB :: "Repo list" where
  "raceB = [candidate ''o/r2'']"

definition raceC :: "Repo list" where
  "raceC = [candidate ''o/r3'']"

text \<open>
  An interleaving of three scans for the window \<open>3d\<close>: scan A starts (initial load, empty
  cache); the user clicks the \<open>3d\<close> tab, starting scan B; B completes, which enables the
  refresh button; the user forces a refresh, scan C; C completes; A completes last.
\<close>

definition race1 :: App where
  "race1 = fst (handleScan_start noCoercion 0 21600000 TF3d False (initialApp Map.empty))"

definition race2 :: App where
  "race2 = fst (handleScan_start noCoercion 0 21601000 TF3d False race1)"

definition race3 :: App where
  "race3 = handleScan_fulfilled 21602000 TF3d raceB race2"

definition race4 :: App where
  "race4 = fst (handleScan_start noCoercion 0 21603000 TF3d True race3)"

definition race5 :: App where
  "race5 = handleScan_fulfilled 21604000 TF3d raceC race4"

definition race6 :: App where
  "race6 = handleScan_fulfilled 21605000 TF3d raceA race5"

text \<open>A scan for \<open>3d\<close> started over a cache entry that is not JSON.\<close>

definition corruptApp :: App where
  "corruptApp = appWith TF3d (Malformed ''{oops'')"

definition corruptScanning :: App where
  "corruptScanning = fst (handleScan_start noCoercion 0 21600000 TF3d False corruptApp)"


section \<open>Properties of the checkpoint scheduler\<close>

lemma day_split: "t + tz = localDay tz t * DAY + timeOfDay tz t"
  by (simp add: localDay_def timeOfDay_def)

lemma timeOfDay_range: "0 \<le> timeOfDay tz t \<and> timeOfDay tz t < DAY"
  by (simp add: timeOfDay_def DAY_def HOUR_def)

lemma setHours_atHour: "setHours tz h t = atHour tz (localDay tz t) h"
  by (simp add: setHours_def atHour_def localDay_def)

lemma localDay_prev: "localDay tz (setDatePrev t) = localDay tz t - 1"
proof -
  have "(t + tz - DAY) div DAY = (t + tz) div DAY - 1"
    by (simp add: DAY_def HOUR_def)
  then show ?thesis
    by (simp add: localDay_def setDatePrev_def add_diff_eq diff_add_eq)
qed

lemma checkpoint_cases:
  "getLatestCheckpoint tz now =
     (if timeOfDay tz now < 5 * HOUR then atHour tz (localDay tz now - 1) 17
      else if timeOfDay tz now < 17 * HOUR then atHour tz (localDay tz now) 5
      else atHour tz (localDay tz now) 17)"
proof -
  have a: "now < atHour tz (localDay tz now) h \<longleftrightarrow> timeOfDay tz now < h * HOUR" for h
    using day_split [of now tz] unfolding atHour_def by linarith
  show ?thesis
    by (simp add: getLatestCheckpoint_def Let_def setHours_atHour localDay_prev a)
qed

lemma timeOfDay_atHour:
  assumes "0 \<le> h" "h < 24"
  shows "timeOfDay tz (atHour tz d h) = h * HOUR"
proof -
  have "(d * DAY + h * HOUR) mod DAY = (h * HOUR) mod DAY"
    by simp
  also have "\<dots> = h * HOUR"
    using assms by (simp add: DAY_def HOUR_def)
  finally show ?thesis
    by (simp add: timeOfDay_def atHour_def)
qed

lemma localDay_atHour:
  assumes "0 \<le> h" "h < 24"
  shows "localDay tz (atHour tz d h) = d"
proof -
  have "(h * HOUR + d * DAY) div DAY = d"
    using assms by (simp add: DAY_def HOUR_def)
  then show ?thesis
    by (simp add: localDay_def atHour_def add.commute)
qed

lemma boundary_shape:
  assumes "isBoundary tz b"
  shows "b = atHour tz (localDay tz b) 5 \<or> b = atHour tz (localDay tz b) 17"
  using assms day_split [of b tz] by (auto simp: isBoundary_def atHour_def)

lemma localDay_mono: "a \<le> b \<Longrightarrow> localDay tz a \<le> localDay tz b"
  by (simp add: localDay_def DAY_def HOUR_def zdiv_mono1)

lemma atHour_le_iff:
  "atHour tz d h \<le> atHour tz d' h' \<longleftrightarrow> d * DAY + h * HOUR \<le> d' * DAY + h' * HOUR"
  by (simp add: atHour_def)

lemma checkpoint_is_boundary: "isBoundary tz (getLatestCheckpoint tz now)"
  by (simp add: checkpoint_cases isBoundary_def timeOfDay_atHour)

lemma checkpoint_le_now: "getLatestCheckpoint tz now \<le> now"
proof -
  have r: "0 \<le> timeOfDay tz now" "timeOfDay tz now < DAY"
    using timeOfDay_range by auto
  show ?thesis
    using day_split [of now tz] r
    by (auto simp: checkpoint_cases atHour_def DAY_def HOUR_def algebra_simps)
qed

lemma checkpoint_latest:
  assumes b: "isBoundary tz b" and le: "b \<le> now"
  shows "b \<le> getLatestCheckpoint tz now"
proof -
  define d where "d = localDay tz now"
  define e where "e = localDay tz b"
  have ed: "e \<le> d"
    using le by (simp add: d_def e_def localDay_mono)
  have shape: "b = atHour tz e 5 \<or> b = atHour tz e 17"
    using boundary_shape [OF b] by (simp add: e_def)
  have now: "now + tz = d * DAY + timeOfDay tz now"
    using day_split [of now tz] by (simp add: d_def)
  show ?thesis
  proof (cases "e = d")
    case True
    with shape le now show ?thesis
      by (auto simp: checkpoint_cases atHour_def d_def [symmetric] DAY_def HOUR_def)
  next
    case False
    with ed have "e \<le> d - 1" by simp
    then have "e * DAY \<le> (d - 1) * DAY"
      by (simp add: DAY_def HOUR_def)
    with shape show ?thesis
      by (auto simp: checkpoint_cases atHour_def d_def [symmetric] DAY_def HOUR_def
          algebra_simps)
  qed
qed

text \<open>
  Claim C2 (amended). For every current time \<open>now\<close>, \<open>getLatestCheckpoint\<close> returns 17:00 of
  the previous day when \<open>now\<close> is before 05:00 of the current day, 05:00 of the current day
  when 05:00 \<open>\<le>\<close> now < 17:00, and 17:00 of the current day otherwise; in every case the
  returned timestamp is a boundary, it is at or before \<open>now\<close>, and no boundary at or before
  \<open>now\<close> is later: it is the most recent boundary at or before \<open>now\<close>.
\<close>

theorem getLatestCheckpoint_latest_at_or_before:
  "(timeOfDay tz now < 5 * HOUR \<longrightarrow>
      getLatestCheckpoint tz now = atHour tz (localDay tz now - 1) 17) \<and>
   (5 * HOUR \<le> timeOfDay tz now \<and> timeOfDay tz now < 17 * HOUR \<longrightarrow>
      getLatestCheckpoint tz now = atHour tz (localDay tz now) 5) \<and>
   (17 * HOUR \<le> timeOfDay tz now \<longrightarrow>
      getLatestCheckpoint tz now = atHour tz (localDay tz now) 17) \<and>
   isBoundary tz (getLatestCheckpoint tz now) \<and>
   getLatestCheckpoint tz now \<le> now \<and>
   (\<forall>b. isBoundary tz b \<and> b \<le> now \<longrightarrow> b \<le> getLatestCheckpoint tz now)"
  using checkpoint_is_boundary [of tz now] checkpoint_le_now [of tz now]
    checkpoint_latest [of tz _ now]
  by (auto simp: checkpoint_cases HOUR_def)

theorem getLatestCheckpoint_latest_at_or_before_witness:
  "timeOfDay 0 3600000 < 5 * HOUR \<and>
   getLatestCheckpoint 0 3600000 = atHour 0 (localDay 0 3600000 - 1) 17 \<and>
   5 * HOUR \<le> timeOfDay 0 21600000 \<and> timeOfDay 0 21600000 < 17 * HOUR \<and>
   getLatestCheckpoint 0 21600000 = atHour 0 (localDay 0 21600000) 5 \<and>
   17 * HOUR \<le> timeOfDay 0 64800000 \<and>
   getLatestCheckpoint 0 64800000 = atHour 0 (localDay 0 64800000) 17 \<and>
   isBoundary 0 18000000 \<and> (18000000::int) \<le> 21600000 \<and>
   18000000 \<le> getLatestCheckpoint 0 21600000"
proof -
  note a = getLatestCheckpoint_latest_at_or_before [of 0 3600000]
  note b = getLatestCheckpoint_latest_at_or_before [of 0 21600000]
  note c = getLatestCheckpoint_latest_at_or_before [of 0 64800000]
  have h1: "timeOfDay 0 3600000 < 5 * HOUR"
    by (simp add: timeOfDay_def HOUR_def DAY_def)
  have h2: "5 * HOUR \<le> timeOfDay 0 21600000 \<and> timeOfDay 0 21600000 < 17 * HOUR"
    by (simp add: timeOfDay_def HOUR_def DAY_def)
  have h3: "17 * HOUR \<le> timeOfDay 0 64800000"
    by (simp add: timeOfDay_def HOUR_def DAY_def)
  have h4: "isBoundary 0 18000000 \<and> (18000000::int) \<le> 21600000"
    by (simp add: isBoundary_def timeOfDay_def HOUR_def DAY_def)
  from a b c h1 h2 h3 h4 show ?thesis
    by blast
qed

text \<open>
  Claim C2 as stated fails at a boundary: at exactly 05:00 the function returns 05:00,
  which is not strictly before \<open>now\<close>.
\<close>

theorem getLatestCheckpoint_not_strictly_before:
  "timeOfDay 0 18000000 = 5 * HOUR \<and> \<not> getLatestCheckpoint 0 18000000 < 18000000"
  by (simp add: getLatestCheckpoint_def setHours_def timeOfDay_def HOUR_def DAY_def)


section \<open>Properties of the status tiering\<close>

lemma leNum_Some: "leNum (Some x) k \<longleftrightarrow> x \<le> k"
  by (simp add: leNum_def)

lemma daysSincePush_Some: "daysSincePush now (Some t) = Some ((now - t) div DAY)"
  by (simp add: daysSincePush_def DAY_def HOUR_def)

text \<open>
  Claim C10. The status tier is a function of the archived flag, the rate-limited flag,
  the last-push timestamp and the current time alone. Archived wins, then rate-limited,
  then a missing (or empty) timestamp gives UNKNOWN; otherwise, for a timestamp that
  parses as a date, the whole number of days since the last push is bucketed:
  at most 3 CRITICAL, at most 7 ONLINE, at most 30 STABLE, at most 90 STANDBY (idle),
  at most 180 DECAY, and beyond that OFFLINE.
\<close>

theorem getStatusInfo_priority_and_bands:
  "(isArchived repo = Some True \<longrightarrow> getStatusInfo parseDate now repo = FROZEN) \<and>
   (isArchived repo \<noteq> Some True \<and> isRateLimited repo = Some True \<longrightarrow>
      getStatusInfo parseDate now repo = SECURE) \<and>
   (isArchived repo \<noteq> Some True \<and> isRateLimited repo \<noteq> Some True \<and>
    (lastPushedAt repo = None \<or> lastPushedAt repo = Some []) \<longrightarrow>
      getStatusInfo parseDate now repo = UNKNOWN) \<and>
   (\<forall>pushed t days.
      isArchived repo \<noteq> Some True \<and> isRateLimited repo \<noteq> Some True \<and>
      lastPushedAt repo = Some pushed \<and> pushed \<noteq> [] \<and> parseDate pushed = Some t \<and>
      days = (now - t) div DAY \<longrightarrow>
        (days \<le> 3 \<longrightarrow> getStatusInfo parseDate now repo = CRITICAL) \<and>
        (3 < days \<and> days \<le> 7 \<longrightarrow> getStatusInfo parseDate now repo = ONLINE) \<and>
        (7 < days \<and> days \<le> 30 \<longrightarrow> getStatusInfo parseDate now repo = STABLE) \<and>
        (30 < days \<and> days \<le> 90 \<longrightarrow> getStatusInfo parseDate now repo = STANDBY) \<and>
        (90 < days \<and> days \<le> 180 \<longrightarrow> getStatusInfo parseDate now repo = DECAY) \<and>
        (180 < days \<longrightarrow> getStatusInfo parseDate now repo = OFFLINE)) \<and>
   (\<forall>other. isArchived other = isArchived repo \<and> isRateLimited other = isRateLimited repo \<and>
      lastPushedAt other = lastPushedAt repo \<longrightarrow>
        getStatusInfo parseDate now other = getStatusInfo parseDate now repo)"
  by (auto simp: getStatusInfo_def Let_def leNum_Some daysSincePush_Some)

theorem getStatusInfo_priority_and_bands_witness:
  "getStatusInfo epochDate 0 (tierRepo (Some True) (Some True) None) = FROZEN \<and>
   getStatusInfo epochDate 0 (tierRepo None (Some True) None) = SECURE \<and>
   getStatusInfo epochDate 0 (tierRepo (Some False) (Some False) None) = UNKNOWN \<and>
   getStatusInfo epochDate (4 * DAY - 1)
     (tierRepo None None (Some ''1970-01-01T00:00:00Z'')) = CRITICAL \<and>
   getStatusInfo epochDate (4 * DAY)
     (tierRepo None None (Some ''1970-01-01T00:00:00Z'')) = ONLINE \<and>
   getStatusInfo epochDate (30 * DAY)
     (tierRepo None None (Some ''1970-01-01T00:00:00Z'')) = STABLE \<and>
   getStatusInfo epochDate (31 * DAY)
     (tierRepo None None (Some ''1970-01-01T00:00:00Z'')) = STANDBY \<and>
   getStatusInfo epochDate (180 * DAY)
     (tierRepo None None (Some ''1970-01-01T00:00:00Z'')) = DECAY \<and>
   getStatusInfo epochDate (181 * DAY)
     (tierRepo None None (Some ''1970-01-01T00:00:00Z'')) = OFFLINE \<and>
   getStatusInfo epochDate (181 * DAY) (candidate ''o/r9'') =
     getStatusInfo epochDate (181 * DAY) (tierRepo None None None)"
proof -
  let ?p = "tierRepo None None (Some ''1970-01-01T00:00:00Z'')"
  have f: "isArchived ?p \<noteq> Some True \<and> isRateLimited ?p \<noteq> Some True \<and>
      lastPushedAt ?p = Some ''1970-01-01T00:00:00Z'' \<and> ''1970-01-01T00:00:00Z'' \<noteq> [] \<and>
      epochDate ''1970-01-01T00:00:00Z'' = Some 0"
    by (simp add: tierRepo_def epochDate_def)
  have 1: "getStatusInfo epochDate 0 (tierRepo (Some True) (Some True) None) = FROZEN"
    using getStatusInfo_priority_and_bands [of "tierRepo (Some True) (Some True) None" epochDate 0]
    by (simp add: tierRepo_def)
  have 2: "getStatusInfo epochDate 0 (tierRepo None (Some True) None) = SECURE"
    using getStatusInfo_priority_and_bands [of "tierRepo None (Some True) None" epochDate 0]
    by (simp add: tierRepo_def)
  have 3: "getStatusInfo epochDate 0 (tierRepo (Some False) (Some False) None) = UNKNOWN"
    using getStatusInfo_priority_and_bands
      [of "tierRepo (Some False) (Some False) None" epochDate 0]
    by (simp add: tierRepo_def)
  have d: "(4 * DAY - 1 - 0) div DAY = 3" "(4 * DAY - 0) div DAY = 4"
    "(30 * DAY - 0) div DAY = 30" "(31 * DAY - 0) div DAY = 31"
    "(180 * DAY - 0) div DAY = 180" "(181 * DAY - 0) div DAY = 181"
    by (simp_all add: DAY_def HOUR_def)
  have 4: "getStatusInfo epochDate (4 * DAY - 1) ?p = CRITICAL"
    using getStatusInfo_priority_and_bands [of ?p epochDate "4 * DAY - 1"] f d by simp
  have 5: "getStatusInfo epochDate (4 * DAY) ?p = ONLINE"
    using getStatusInfo_priority_and_bands [of ?p epochDate "4 * DAY"] f d by simp
  have 6: "getStatusInfo epochDate (30 * DAY) ?p = STABLE"
    using getStatusInfo_priority_and_bands [of ?p epochDate "30 * DAY"] f d by simp
  have 7: "getStatusInfo epochDate (31 * DAY) ?p = STANDBY"
    using getStatusInfo_priority_and_bands [of ?p epochDate "31 * DAY"] f d by simp
  have 8: "getStatusInfo epochDate (180 * DAY) ?p = DECAY"
    using getStatusInfo_priority_and_bands [of ?p epochDate "180 * DAY"] f d by simp
  have 9: "getStatusInfo epochDate (181 * DAY) ?p = OFFLINE"
    using getStatusInfo_priority_and_bands [of ?p epochDate "181 * DAY"] f d by simp
  have 10: "getStatusInfo epochDate (181 * DAY) (candidate ''o/r9'') =
     getStatusInfo epochDate (181 * DAY) (tierRepo None None None)"
    using getStatusInfo_priority_and_bands [of "tierRepo None None None" epochDate "181 * DAY"]
    by (simp add: tierRepo_def candidate_def)
  from 1 2 3 4 5 6 7 8 9 10 show ?thesis by blast
qed


section \<open>Properties of the candidate validation\<close>

lemma accept_step:
  "length acc < TARGET_COUNT \<Longrightarrow>
   validateLoop fetch (c # cs) acc =
     validateLoop fetch cs (case accept fetch c of None \<Rightarrow> acc | Some r \<Rightarrow> acc @ [r])"
  by (auto simp: accept_def nameCheck_def split: option.splits)

lemma validateLoop_full:
  "TARGET_COUNT \<le> length acc \<Longrightarrow> validateLoop fetch cs acc = acc"
  by (cases cs) auto

lemma validateLoop_take:
  "length acc \<le> TARGET_COUNT \<Longrightarrow>
   validateLoop fetch cs acc = take TARGET_COUNT (acc @ List.map_filter (accept fetch) cs)"
proof (induction cs arbitrary: acc)
  case Nil
  then show ?case by simp
next
  case (Cons c cs)
  show ?case
  proof (cases "length acc < TARGET_COUNT")
    case True
    then show ?thesis
      using Cons.IH [of acc] Cons.IH [of "acc @ [the (accept fetch c)]"]
      by (auto simp: accept_step simp del: validateLoop.simps(2)
          split: option.splits)
  next
    case False
    with Cons.prems have "length acc = TARGET_COUNT" by simp
    then show ?thesis by (simp add: validateLoop_full)
  qed
qed

lemma validateLoop_append:
  "validateLoop fetch (xs @ ys) acc = validateLoop fetch ys (validateLoop fetch xs acc)"
proof (induction xs arbitrary: acc)
  case Nil
  then show ?case by simp
next
  case (Cons c cs)
  show ?case
  proof (cases "length acc < TARGET_COUNT")
    case True
    then show ?thesis
      using Cons.IH by (simp add: accept_step del: validateLoop.simps(2))
  next
    case False
    then have "TARGET_COUNT \<le> length acc" by simp
    then show ?thesis by (simp add: validateLoop_full)
  qed
qed

lemma validateLoop_keeps:
  "prefix acc (validateLoop fetch cs acc)"
proof (induction cs arbitrary: acc)
  case Nil
  then show ?case by simp
next
  case (Cons c cs)
  show ?case
  proof (cases "length acc < TARGET_COUNT")
    case True
    have "prefix acc (case accept fetch c of None \<Rightarrow> acc | Some r \<Rightarrow> acc @ [r])"
      by (simp split: option.splits)
    then show ?thesis
      using Cons.IH [of "case accept fetch c of None \<Rightarrow> acc | Some r \<Rightarrow> acc @ [r]"]
        prefix_order.trans
      by (fastforce simp: accept_step True simp del: validateLoop.simps(2))
  next
    case False
    then have "TARGET_COUNT \<le> length acc" by simp
    then show ?thesis by (simp add: validateLoop_full)
  qed
qed

lemma validateLoop_length:
  "length acc \<le> TARGET_COUNT \<Longrightarrow> length (validateLoop fetch cs acc) \<le> TARGET_COUNT"
  by (simp add: validateLoop_take)

lemma map_filter_append:
  "List.map_filter f (xs @ ys) = List.map_filter f xs @ List.map_filter f ys"
  by (simp add: List.map_filter_def)

lemma map_filter_all:
  "\<forall>x\<in>set xs. f x \<noteq> None \<Longrightarrow> List.map_filter f xs = map (\<lambda>x. the (f x)) xs"
  by (induction xs) auto

lemma accept_not_found:
  "fetch (cleanName (name c)) = Http 404 body \<Longrightarrow> accept fetch c = None"
  by (simp add: accept_def nameCheck_def fetchRepoDetails_def split: option.splits)

lemma accept_success:
  assumes "nameCheck c \<noteq> None" "fetch (cleanName (name c)) = Http code (Some d)"
    "response_ok code"
  shows "accept fetch c \<noteq> None"
  using assms
  by (auto simp: accept_def nameCheck_def fetchRepoDetails_def response_ok_def
      split: option.splits if_splits)

lemma validateLoop_subseq:
  "\<exists>kept. subseq kept cands \<and> (\<forall>c\<in>set kept. accept fetch c \<noteq> None) \<and>
     validateLoop fetch cands [] = map (\<lambda>c. the (accept fetch c)) kept"
proof -
  define kept where "kept = take TARGET_COUNT (filter (\<lambda>c. accept fetch c \<noteq> None) cands)"
  have "subseq kept (filter (\<lambda>c. accept fetch c \<noteq> None) cands)"
    unfolding kept_def by (metis append_take_drop_id subseq_rev_drop_many subseq_order.order_refl)
  then have 1: "subseq kept cands"
    using subseq_filter_left subseq_order.trans by blast
  have 2: "\<forall>c\<in>set kept. accept fetch c \<noteq> None"
    unfolding kept_def by (auto dest: in_set_takeD)
  have 3: "validateLoop fetch cands [] = map (\<lambda>c. the (accept fetch c)) kept"
    by (simp add: validateLoop_take kept_def List.map_filter_def take_map comp_def)
  from 1 2 3 show ?thesis by blast
qed

lemma validateLoop_drop_not_found:
  assumes "fetch (cleanName (name c)) = Http 404 body"
  shows "validateLoop fetch (xs @ c # ys) [] = validateLoop fetch (xs @ ys) []"
  using accept_not_found [of fetch c body] assms
  by (simp add: validateLoop_take map_filter_append)

lemma validateLoop_nine_of_ten:
  assumes len: "length (xs @ c # ys) = 10"
    and nf: "fetch (cleanName (name c)) = Http 404 body"
    and ok: "\<forall>k\<in>set (xs @ ys). nameCheck k \<noteq> None \<and>
               (\<exists>code d. response_ok code \<and>
                  fetch (cleanName (name k)) = Http code (Some d))"
  shows "validateLoop fetch (xs @ c # ys) [] = map (\<lambda>k. the (accept fetch k)) (xs @ ys) \<and>
         length (validateLoop fetch (xs @ c # ys) []) = 9 \<and>
         validateCandidates fetch (xs @ c # ys) = Inr (validateLoop fetch (xs @ c # ys) [])"
proof -
  have acc: "\<forall>k\<in>set (xs @ ys). accept fetch k \<noteq> None"
    using ok accept_success by blast
  have "validateLoop fetch (xs @ c # ys) [] = validateLoop fetch (xs @ ys) []"
    using validateLoop_drop_not_found [of fetch c body xs ys] nf by simp
  also have "\<dots> = take TARGET_COUNT (map (\<lambda>k. the (accept fetch k)) (xs @ ys))"
    using map_filter_all [OF acc] by (simp add: validateLoop_take)
  also have "\<dots> = map (\<lambda>k. the (accept fetch k)) (xs @ ys)"
    using len by (simp add: TARGET_COUNT_def)
  finally have 1:
    "validateLoop fetch (xs @ c # ys) [] = map (\<lambda>k. the (accept fetch k)) (xs @ ys)" .
  have 2: "length (validateLoop fetch (xs @ c # ys) []) = 9"
    unfolding 1 using len by simp
  have 3: "validateCandidates fetch (xs @ c # ys) = Inr (validateLoop fetch (xs @ c # ys) [])"
    using 2 by (auto simp: validateCandidates_def Let_def)
  from 1 2 3 show ?thesis by blast
qed

lemma mergeDetails_rateLimited:
  "mergeDetails c cn rateLimitedDetails = c\<lparr>name := cn, isRateLimited := Some True\<rparr>"
  by (simp add: mergeDetails_def rateLimitedDetails_def spread_def)

lemma accept_rate_limited:
  assumes "nameCheck c = Some cn" "fetch cn = Http code body" "code = 403 \<or> code = 429"
  shows "accept fetch c = Some (c\<lparr>name := cn, isRateLimited := Some True\<rparr>)"
  using assms by (auto simp: accept_def fetchRepoDetails_def mergeDetails_rateLimited)

lemma validateLoop_names:
  "r \<in> set (validateLoop fetch cands []) \<Longrightarrow>
   \<exists>c\<in>set cands. name r = cleanName (name c) \<and> CHR ''/'' \<in> set (name r)"
proof -
  assume "r \<in> set (validateLoop fetch cands [])"
  then have "r \<in> set (List.map_filter (accept fetch) cands)"
    by (auto simp: validateLoop_take dest: in_set_takeD)
  then obtain c where c: "c \<in> set cands" "accept fetch c = Some r"
    by (auto simp: List.map_filter_def)
  then have "name r = cleanName (name c) \<and> CHR ''/'' \<in> set (name r)"
    by (auto simp: accept_def nameCheck_def mergeDetails_def split: option.splits if_splits)
  with c show ?thesis by blast
qed

lemma nameCheck_None_iff: "nameCheck c = None \<longleftrightarrow> CHR ''/'' \<notin> set (cleanName (name c))"
proof (cases "name c = []")
  case True
  have "cleanName [] = []"
    by code_simp
  with True show ?thesis
    by (simp add: nameCheck_def)
next
  case False
  then show ?thesis
    by (simp add: nameCheck_def)
qed

lemma whiteSpace_nonempty: "w \<in> set whiteSpace \<Longrightarrow> w \<noteq> []"
  by (auto simp: whiteSpace_def)

lemma whiteSpace_no_slash: "w \<in> set whiteSpace \<Longrightarrow> CHR ''/'' \<notin> set w"
  by (auto simp: whiteSpace_def)

lemma stripLeading_none:
  "find (\<lambda>w. w \<noteq> [] \<and> prefix w s) ws = None \<Longrightarrow> stripLeading ws s = s"
  by (simp add: stripLeading.simps)

lemma stripLeading_length: "length (stripLeading ws s) \<le> length s"
proof (induction ws s rule: stripLeading.induct)
  case (1 ws s)
  show ?case
  proof (cases "find (\<lambda>w. w \<noteq> [] \<and> prefix w s) ws")
    case None
    then show ?thesis by (simp add: stripLeading_none)
  next
    case (Some w)
    then have "length (stripLeading ws (drop (length w) s)) \<le> length (drop (length w) s)"
      using "1.IH" by simp
    with Some show ?thesis
      by (simp add: stripLeading.simps [of ws s])
  qed
qed

lemma stripLeading_shorter:
  assumes "find (\<lambda>w. w \<noteq> [] \<and> prefix w s) ws = Some w"
  shows "length (stripLeading ws s) < length s"
proof -
  from assms have w: "w \<noteq> []" "prefix w s"
    by (auto simp: find_Some_iff)
  then have "length (drop (length w) s) < length s"
    by (auto simp: prefix_def)
  moreover have "stripLeading ws s = stripLeading ws (drop (length w) s)"
    using assms by (simp add: stripLeading.simps [of ws s])
  ultimately show ?thesis
    using stripLeading_length [of ws "drop (length w) s"] by simp
qed

lemma stripLeading_done:
  "find (\<lambda>w. w \<noteq> [] \<and> prefix w (stripLeading ws s)) ws = None"
proof (induction ws s rule: stripLeading.induct)
  case (1 ws s)
  show ?case
  proof (cases "find (\<lambda>w. w \<noteq> [] \<and> prefix w s) ws")
    case None
    then show ?thesis by (simp add: stripLeading_none)
  next
    case (Some w)
    with "1.IH" show ?thesis
      by (simp add: stripLeading.simps [of ws s])
  qed
qed

lemma stripLeading_decomp:
  "\<exists>toks. set toks \<subseteq> set ws \<and> s = concat toks @ stripLeading ws s"
proof (induction ws s rule: stripLeading.induct)
  case (1 ws s)
  show ?case
  proof (cases "find (\<lambda>w. w \<noteq> [] \<and> prefix w s) ws")
    case None
    then have "set [] \<subseteq> set ws \<and> s = concat [] @ stripLeading ws s"
      by (simp add: stripLeading_none)
    then show ?thesis by blast
  next
    case (Some w)
    then have w: "w \<in> set ws" "prefix w s"
      by (auto simp: find_Some_iff)
    from "1.IH" [OF Some] obtain toks where
      t: "set toks \<subseteq> set ws"
        "drop (length w) s = concat toks @ stripLeading ws (drop (length w) s)"
      by blast
    have "s = w @ drop (length w) s"
      using w(2) by (auto simp: prefix_def)
    then have "s = concat (w # toks) @ stripLeading ws s"
      using t(2) Some by (simp add: stripLeading.simps [of ws s])
    moreover have "set (w # toks) \<subseteq> set ws"
      using w(1) t(1) by simp
    ultimately show ?thesis by blast
  qed
qed

lemma trim_decomp:
  "\<exists>lead trail. set lead \<subseteq> set whiteSpace \<and> set trail \<subseteq> set whiteSpace \<and>
     s = concat lead @ trim s @ concat trail"
proof -
  let ?x = "stripLeading whiteSpace s"
  obtain lead where l: "set lead \<subseteq> set whiteSpace" "s = concat lead @ ?x"
    using stripLeading_decomp by blast
  obtain toks where t: "set toks \<subseteq> set (map rev whiteSpace)"
    "rev ?x = concat toks @ stripLeading (map rev whiteSpace) (rev ?x)"
    using stripLeading_decomp by blast
  have "?x = rev (rev ?x)" by simp
  also have "\<dots> = trim s @ rev (concat toks)"
    by (subst t(2)) (simp add: trim_def)
  also have "rev (concat toks) = concat (map rev (rev toks))"
    by (simp add: rev_concat rev_map)
  finally have x: "?x = trim s @ concat (map rev (rev toks))" .
  have "set (map rev (rev toks)) \<subseteq> set whiteSpace"
    using t(1) by auto
  with l x show ?thesis
    by (metis append.assoc)
qed

lemma trim_length: "length (trim s) \<le> length (stripLeading whiteSpace s)"
  using stripLeading_length [of "map rev whiteSpace" "rev (stripLeading whiteSpace s)"]
  by (simp add: trim_def)

lemma trim_no_space_ends:
  assumes "w \<in> set whiteSpace"
  shows "\<not> prefix w (trim s) \<and> \<not> suffix w (trim s)"
proof
  let ?x = "stripLeading whiteSpace s"
  have ne: "w \<noteq> []"
    using assms by (rule whiteSpace_nonempty)
  show "\<not> prefix w (trim s)"
  proof
    assume p: "prefix w (trim s)"
    obtain toks where "rev ?x = concat toks @ stripLeading (map rev whiteSpace) (rev ?x)"
      using stripLeading_decomp by blast
    then have "?x = trim s @ rev (concat toks)"
      by (metis rev_append rev_rev_ident trim_def)
    then have "prefix (trim s) ?x"
      by (metis prefixI)
    with p have "prefix w ?x"
      by (rule prefix_order.trans)
    moreover have "find (\<lambda>w. w \<noteq> [] \<and> prefix w ?x) whiteSpace = None"
      by (rule stripLeading_done)
    ultimately show False
      using assms ne by (auto simp: find_None_iff)
  qed
  show "\<not> suffix w (trim s)"
  proof
    assume "suffix w (trim s)"
    then have "prefix (rev w) (stripLeading (map rev whiteSpace) (rev ?x))"
      by (simp add: trim_def suffix_to_prefix)
    moreover have "find (\<lambda>w. w \<noteq> [] \<and> prefix w (stripLeading (map rev whiteSpace) (rev ?x)))
        (map rev whiteSpace) = None"
      by (rule stripLeading_done)
    ultimately show False
      using assms ne by (auto simp: find_None_iff)
  qed
qed

lemma trim_fixed_no_lead:
  assumes "trim n = n"
  shows "find (\<lambda>w. w \<noteq> [] \<and> prefix w n) whiteSpace = None"
proof (cases "find (\<lambda>w. w \<noteq> [] \<and> prefix w n) whiteSpace")
  case None
  then show ?thesis .
next
  case (Some w)
  then have "length (stripLeading whiteSpace n) < length n"
    by (rule stripLeading_shorter)
  with trim_length [of n] assms show ?thesis by simp
qed

lemma trim_slash:
  assumes "trim n = n"
  shows "trim (n @ ''/'') = n @ ''/''"
proof -
  have a: "find (\<lambda>w. w \<noteq> [] \<and> prefix w (n @ ''/'')) whiteSpace = None"
  proof -
    have "\<not> prefix w (n @ ''/'')" if "w \<in> set whiteSpace" for w
    proof
      assume "prefix w (n @ ''/'')"
      then have "w = n @ ''/'' \<or> prefix w n"
        by (simp add: prefix_snoc) 
      moreover have "\<not> prefix w n"
        using trim_fixed_no_lead [OF assms] that whiteSpace_nonempty [OF that]
        by (auto simp: find_None_iff)
      ultimately have "CHR ''/'' \<in> set w" by auto
      with whiteSpace_no_slash [OF that] show False by simp
    qed
    then show ?thesis by (auto simp: find_None_iff)
  qed
  have b: "find (\<lambda>w. w \<noteq> [] \<and> prefix w (CHR ''/'' # rev n)) (map rev whiteSpace) = None"
  proof -
    have "\<not> (rev w \<noteq> [] \<and> prefix (rev w) (CHR ''/'' # rev n))" if "w \<in> set whiteSpace" for w
    proof
      assume "rev w \<noteq> [] \<and> prefix (rev w) (CHR ''/'' # rev n)"
      then have "hd (rev w) = CHR ''/''" "rev w \<noteq> []"
        by (auto simp: prefix_Cons)
      then have "CHR ''/'' \<in> set (rev w)"
        using hd_in_set by metis
      with whiteSpace_no_slash [OF that] show False by simp
    qed
    then show ?thesis by (auto simp: find_None_iff)
  qed
  show ?thesis
    using stripLeading_none [OF a] stripLeading_none [OF b] by (simp add: trim_def)
qed

lemma stripDotGit_suffix: "stripDotGit (s @ ''.git'') = s"
proof -
  have "suffix ''.git'' (s @ ''.git'')"
    by (rule suffixI [OF refl])
  then show ?thesis
    by (simp add: stripDotGit_def)
qed

lemma stripSlash_suffix: "stripSlash (s @ ''/'') = s"
proof -
  have "suffix ''/'' (s @ ''/'')"
    by (rule suffixI [OF refl])
  then show ?thesis
    by (simp add: stripSlash_def butlast_append)
qed

lemma no_scheme_append:
  assumes "\<not> prefix ''http:'' n" "\<not> prefix ''https:'' n" "suf \<in> {[], ''.git'', ''/''}"
  shows "\<not> prefix ''http:'' (n @ suf) \<and> \<not> prefix ''https:'' (n @ suf)"
  using assms by (auto simp: prefix_append Cons_eq_append_conv)

lemma stripUrlPrefix_none:
  "\<not> prefix ''http:'' s \<Longrightarrow> \<not> prefix ''https:'' s \<Longrightarrow> stripUrlPrefix s = s"
  by (auto simp: stripUrlPrefix_def prefix_def)

lemma cleanName_core:
  assumes "plainName n" "suf \<in> {[], ''.git'', ''/''}"
  shows "stripSlash (trim (stripDotGit (n @ suf))) = n"
proof -
  from assms(2) consider "suf = []" | "suf = ''.git''" | "suf = ''/''" by auto
  then show ?thesis
  proof cases
    case 1
    with assms(1) show ?thesis
      by (simp add: plainName_def stripDotGit_def stripSlash_def)
  next
    case 2
    with assms(1) show ?thesis
      by (simp add: plainName_def stripDotGit_suffix stripSlash_def)
  next
    case 3
    have "\<not> suffix ''.git'' (n @ ''/'')"
      by (auto simp: suffix_def Cons_eq_append_conv append_eq_append_conv2)
    then have "stripDotGit (n @ ''/'') = n @ ''/''"
      by (simp add: stripDotGit_def)
    with assms(1) 3 show ?thesis
      by (simp add: plainName_def trim_slash stripSlash_suffix)
  qed
qed

lemma cleanName_decorated:
  assumes "plainName n" "pre \<in> {[], ''https://github.com/'', ''http://github.com/''}"
    "suf \<in> {[], ''.git'', ''/''}"
  shows "cleanName (pre @ n @ suf) = n"
proof -
  have "stripUrlPrefix (pre @ n @ suf) = n @ suf"
  proof (cases "pre = []")
    case True
    have "\<not> prefix ''http:'' (n @ suf) \<and> \<not> prefix ''https:'' (n @ suf)"
      using assms(1,3) no_scheme_append by (simp add: plainName_def)
    with True show ?thesis by (simp add: stripUrlPrefix_none)
  next
    case False
    with assms(2) show ?thesis by (auto simp: stripUrlPrefix_def)
  qed
  then show ?thesis
    using cleanName_core [OF assms(1,3)] by (simp add: cleanName_def)
qed

lemma stripUrlPrefix_decomp:
  "\<exists>pre. pre \<in> {[], ''https://github.com/'', ''http://github.com/''} \<and>
     s = pre @ stripUrlPrefix s \<and>
     (pre = [] \<longrightarrow> \<not> prefix ''https://github.com/'' s \<and> \<not> prefix ''http://github.com/'' s)"
proof -
  consider "prefix ''https://github.com/'' s"
    | "\<not> prefix ''https://github.com/'' s" "prefix ''http://github.com/'' s"
    | "\<not> prefix ''https://github.com/'' s" "\<not> prefix ''http://github.com/'' s"
    by blast
  then show ?thesis
  proof cases
    case 1
    then have "s = ''https://github.com/'' @ stripUrlPrefix s"
      by (auto simp: stripUrlPrefix_def prefix_def)
    then show ?thesis by blast
  next
    case 2
    then have "s = ''http://github.com/'' @ stripUrlPrefix s"
      by (auto simp: stripUrlPrefix_def prefix_def)
    then show ?thesis by blast
  next
    case 3
    then have "s = [] @ stripUrlPrefix s"
      by (simp add: stripUrlPrefix_def)
    with 3 show ?thesis by blast
  qed
qed

lemma stripDotGit_decomp:
  "\<exists>git. git \<in> {[], ''.git''} \<and> s = stripDotGit s @ git \<and> (git = [] \<longrightarrow> \<not> suffix ''.git'' s)"
proof (cases "suffix ''.git'' s")
  case True
  then obtain t where "s = t @ ''.git''"
    by (auto simp: suffix_def)
  then have "s = stripDotGit s @ ''.git''"
    using stripDotGit_suffix [of t] by simp
  then show ?thesis by blast
next
  case False
  then have "s = stripDotGit s @ []"
    by (simp add: stripDotGit_def)
  with False show ?thesis by blast
qed

lemma cleanName_decomp:
  "\<exists>pre lead sl trail git.
     nm = pre @ concat lead @ cleanName nm @ sl @ concat trail @ git \<and>
     pre \<in> {[], ''https://github.com/'', ''http://github.com/''} \<and>
     (pre = [] \<longrightarrow> \<not> prefix ''https://github.com/'' nm \<and> \<not> prefix ''http://github.com/'' nm) \<and>
     git \<in> {[], ''.git''} \<and>
     (git = [] \<longrightarrow> \<not> suffix ''.git'' (concat lead @ cleanName nm @ sl @ concat trail)) \<and>
     set lead \<subseteq> set whiteSpace \<and> set trail \<subseteq> set whiteSpace \<and>
     (\<forall>w\<in>set whiteSpace. \<not> prefix w (cleanName nm @ sl) \<and> \<not> suffix w (cleanName nm @ sl)) \<and>
     sl \<in> {[], ''/''} \<and> (sl = [] \<longrightarrow> \<not> suffix ''/'' (cleanName nm))"
proof -
  let ?a = "stripUrlPrefix nm"
  let ?b = "stripDotGit ?a"
  let ?c = "trim ?b"
  obtain pre where p: "pre \<in> {[], ''https://github.com/'', ''http://github.com/''}"
    "nm = pre @ ?a"
    "pre = [] \<longrightarrow> \<not> prefix ''https://github.com/'' nm \<and> \<not> prefix ''http://github.com/'' nm"
    using stripUrlPrefix_decomp by blast
  obtain git where g: "git \<in> {[], ''.git''}" "?a = ?b @ git" "git = [] \<longrightarrow> \<not> suffix ''.git'' ?a"
    using stripDotGit_decomp by blast
  obtain lead trail where t: "set lead \<subseteq> set whiteSpace" "set trail \<subseteq> set whiteSpace"
    "?b = concat lead @ ?c @ concat trail"
    using trim_decomp by blast
  obtain sl where s: "sl \<in> {[], ''/''}" "?c = cleanName nm @ sl"
    "sl = [] \<longrightarrow> \<not> suffix ''/'' (cleanName nm)"
    by (cases "suffix ''/'' ?c") (auto simp: cleanName_def stripSlash_def suffix_def)
  have 1: "nm = pre @ concat lead @ cleanName nm @ sl @ concat trail @ git"
    using p(2) g(2) t(3) s(2) by (metis append.assoc)
  have b: "?b = concat lead @ cleanName nm @ sl @ concat trail"
    using t(3) s(2) by simp
  have 2: "git = [] \<longrightarrow> \<not> suffix ''.git'' (concat lead @ cleanName nm @ sl @ concat trail)"
    using g(2,3) b by auto
  have 3: "\<forall>w\<in>set whiteSpace. \<not> prefix w (cleanName nm @ sl) \<and> \<not> suffix w (cleanName nm @ sl)"
    using trim_no_space_ends [of _ ?b] s(2) by simp
  from 1 p(1,3) g(1) 2 t(1,2) 3 s(1,3) show ?thesis by blast
qed

lemma validateLoop_length_le: "length (validateLoop fetch cs []) \<le> length cs"
proof -
  have "length (List.map_filter (accept fetch) cs) \<le> length cs"
    by (simp add: List.map_filter_def)
  then show ?thesis
    by (simp add: validateLoop_take)
qed

lemma example_names:
  "cleanName ''o/r1'' = ''o/r1''"
  "cleanName ''https://github.com/o/r2'' = ''o/r2''"
  "cleanName ''o/r3.git'' = ''o/r3''"
  "cleanName ''o/r4'' = ''o/r4''"
  "cleanName ''o/r5'' = ''o/r5''"
  "cleanName ''o/r6/'' = ''o/r6''"
  "cleanName ''o/r7'' = ''o/r7''"
  "cleanName ''o/r8'' = ''o/r8''"
  "cleanName ''o/r9'' = ''o/r9''"
  "cleanName ''o/r10'' = ''o/r10''"
  "cleanName ''react'' = ''react''"
  by code_simp+

lemmas name_eval = candidate_def nameCheck_def example_names

text \<open>
  Claim C4. The accepted list is, in candidate order, the entries of the candidates that
  survive validation, cut at the target of 10: it is the image of a subsequence of the
  candidate list. A candidate whose lookup answers 404 is dropped as if it had not been
  in the list, so it does not count toward the target. Ten candidates of which one
  gets 404 and nine get a successful answer yield the nine entries, in their order.
\<close>

theorem validateLoop_keeps_order_drops_not_found:
  "validateLoop fetch cands [] = take TARGET_COUNT (List.map_filter (accept fetch) cands) \<and>
   (\<exists>kept. subseq kept cands \<and> (\<forall>k\<in>set kept. accept fetch k \<noteq> None) \<and>
      validateLoop fetch cands [] = map (\<lambda>k. the (accept fetch k)) kept) \<and>
   (\<forall>xs c ys body.
      fetch (cleanName (name c)) = Http 404 body \<longrightarrow>
        validateLoop fetch (xs @ c # ys) [] = validateLoop fetch (xs @ ys) []) \<and>
   (\<forall>xs c ys body.
      cands = xs @ c # ys \<and> length cands = 10 \<and>
      fetch (cleanName (name c)) = Http 404 body \<and>
      (\<forall>k\<in>set (xs @ ys). nameCheck k \<noteq> None \<and>
         (\<exists>code d. response_ok code \<and> fetch (cleanName (name k)) = Http code (Some d))) \<longrightarrow>
        validateLoop fetch cands [] = map (\<lambda>k. the (accept fetch k)) (xs @ ys) \<and>
        length (validateLoop fetch cands []) = 9 \<and>
        validateCandidates fetch cands = Inr (validateLoop fetch cands []))"
proof -
  have 1: "validateLoop fetch cands [] =
      take TARGET_COUNT (List.map_filter (accept fetch) cands)"
    by (simp add: validateLoop_take)
  have 2: "\<exists>kept. subseq kept cands \<and> (\<forall>k\<in>set kept. accept fetch k \<noteq> None) \<and>
      validateLoop fetch cands [] = map (\<lambda>k. the (accept fetch k)) kept"
    by (rule validateLoop_subseq)
  have 3: "\<forall>xs c ys body.
      fetch (cleanName (name c)) = Http 404 body \<longrightarrow>
        validateLoop fetch (xs @ c # ys) [] = validateLoop fetch (xs @ ys) []"
    using validateLoop_drop_not_found by blast
  have 4: "\<forall>xs c ys body.
      cands = xs @ c # ys \<and> length cands = 10 \<and>
      fetch (cleanName (name c)) = Http 404 body \<and>
      (\<forall>k\<in>set (xs @ ys). nameCheck k \<noteq> None \<and>
         (\<exists>code d. response_ok code \<and> fetch (cleanName (name k)) = Http code (Some d))) \<longrightarrow>
        validateLoop fetch cands [] = map (\<lambda>k. the (accept fetch k)) (xs @ ys) \<and>
        length (validateLoop fetch cands []) = 9 \<and>
        validateCandidates fetch cands = Inr (validateLoop fetch cands [])"
  proof (intro allI impI)
    fix xs c ys body
    assume h: "cands = xs @ c # ys \<and> length cands = 10 \<and>
      fetch (cleanName (name c)) = Http 404 body \<and>
      (\<forall>k\<in>set (xs @ ys). nameCheck k \<noteq> None \<and>
         (\<exists>code d. response_ok code \<and> fetch (cleanName (name k)) = Http code (Some d)))"
    from h have eq: "cands = xs @ c # ys"
      by blast
    from h have len: "length (xs @ c # ys) = 10"
      by auto
    from h have nf: "fetch (cleanName (name c)) = Http 404 body"
      by blast
    from h have ok: "\<forall>k\<in>set (xs @ ys). nameCheck k \<noteq> None \<and>
         (\<exists>code d. response_ok code \<and> fetch (cleanName (name k)) = Http code (Some d))"
      by blast
    show "validateLoop fetch cands [] = map (\<lambda>k. the (accept fetch k)) (xs @ ys) \<and>
        length (validateLoop fetch cands []) = 9 \<and>
        validateCandidates fetch cands = Inr (validateLoop fetch cands [])"
      unfolding eq using len nf ok by (rule validateLoop_nine_of_ten)
  qed
  from 1 2 3 4 show ?thesis by blast
qed

theorem validateLoop_keeps_order_drops_not_found_witness:
  "length (firstThree @ candidate ''o/r4'' # lastSix) = 10 \<and>
   okFetch (cleanName (name (candidate ''o/r4''))) = Http 404 None \<and>
   list_all
     (\<lambda>k. nameCheck k \<noteq> None \<and>
        (\<exists>code d. response_ok code \<and> okFetch (cleanName (name k)) = Http code (Some d)))
     (firstThree @ lastSix) \<and>
   map name (validateLoop okFetch (firstThree @ candidate ''o/r4'' # lastSix) []) =
     [''o/r1'', ''o/r2'', ''o/r3'', ''o/r5'', ''o/r6'', ''o/r7'', ''o/r8'', ''o/r9'', ''o/r10''] \<and>
   length (validateLoop okFetch (firstThree @ candidate ''o/r4'' # lastSix) []) = 9"
proof -
  let ?cands = "firstThree @ candidate ''o/r4'' # lastSix"
  have a: "length ?cands = 10"
    by (simp add: firstThree_def lastSix_def)
  have b: "okFetch (cleanName (name (candidate ''o/r4''))) = Http 404 None"
    by (simp add: okFetch_def name_eval)
  have c: "\<forall>k\<in>set (firstThree @ lastSix). nameCheck k \<noteq> None \<and>
      (\<exists>code d. response_ok code \<and> okFetch (cleanName (name k)) = Http code (Some d))"
    by (simp add: firstThree_def lastSix_def okFetch_def response_ok_def name_eval)
  have r: "validateLoop okFetch ?cands [] = map (\<lambda>k. the (accept okFetch k)) (firstThree @ lastSix) \<and>
      length (validateLoop okFetch ?cands []) = 9"
    using validateLoop_keeps_order_drops_not_found [of okFetch ?cands] a b c by blast
  have n: "map name (map (\<lambda>k. the (accept okFetch k)) (firstThree @ lastSix)) =
     [''o/r1'', ''o/r2'', ''o/r3'', ''o/r5'', ''o/r6'', ''o/r7'', ''o/r8'', ''o/r9'', ''o/r10'']"
    by (simp add: firstThree_def lastSix_def accept_def fetchRepoDetails_def okFetch_def
        response_ok_def mergeDetails_def name_eval)
  from c have c': "list_all
     (\<lambda>k. nameCheck k \<noteq> None \<and>
        (\<exists>code d. response_ok code \<and> okFetch (cleanName (name k)) = Http code (Some d)))
     (firstThree @ lastSix)"
    by (simp only: list_all_iff)
  from a b c' r n show ?thesis by simp
qed

text \<open>
  Claim C5. A candidate that reaches the metadata lookup (its name passes the check and
  fewer than 10 entries are accepted before it) and gets status 403 or 429 is appended
  to the accepted list and is in the result; its entry is the candidate with the
  normalised name and \<open>isRateLimited = true\<close>, and its \<open>lastPushedAt\<close>, \<open>isArchived\<close>,
  \<open>starsCount\<close> and \<open>language\<close> are the candidate's own: nothing is merged into them.
\<close>

theorem rate_limited_candidate_accepted:
  assumes "nameCheck c = Some cn" and "fetch cn = Http code body"
    and "code = 403 \<or> code = 429"
    and "length (validateLoop fetch xs []) < TARGET_COUNT"
  shows "accept fetch c = Some (c\<lparr>name := cn, isRateLimited := Some True\<rparr>) \<and>
         validateLoop fetch (xs @ c # ys) [] =
           validateLoop fetch ys
             (validateLoop fetch xs [] @ [c\<lparr>name := cn, isRateLimited := Some True\<rparr>]) \<and>
         c\<lparr>name := cn, isRateLimited := Some True\<rparr> \<in> set (validateLoop fetch (xs @ c # ys) []) \<and>
         (\<forall>r. accept fetch c = Some r \<longrightarrow>
            isRateLimited r = Some True \<and> lastPushedAt r = lastPushedAt c \<and>
            isArchived r = isArchived c \<and> starsCount r = starsCount c \<and>
            language r = language c)"
proof -
  let ?r = "c\<lparr>name := cn, isRateLimited := Some True\<rparr>"
  have a: "accept fetch c = Some ?r"
    using assms(1-3) by (rule accept_rate_limited)
  have "validateLoop fetch (xs @ c # ys) [] =
          validateLoop fetch (c # ys) (validateLoop fetch xs [])"
    by (rule validateLoop_append)
  also have "\<dots> = validateLoop fetch ys (validateLoop fetch xs [] @ [?r])"
    using assms(4) a by (simp add: accept_step del: validateLoop.simps(2))
  finally have b: "validateLoop fetch (xs @ c # ys) [] =
      validateLoop fetch ys (validateLoop fetch xs [] @ [?r])" .
  have "prefix (validateLoop fetch xs [] @ [?r]) (validateLoop fetch (xs @ c # ys) [])"
    unfolding b by (rule validateLoop_keeps)
  then have m: "?r \<in> set (validateLoop fetch (xs @ c # ys) [])"
    using set_mono_prefix by fastforce
  from a b m show ?thesis by simp
qed

theorem rate_limited_candidate_accepted_witness:
  "nameCheck (candidate ''o/r7'') = Some ''o/r7'' \<and>
   demoFetch ''o/r7'' = Http 403 None \<and>
   length (validateLoop demoFetch firstThree []) < TARGET_COUNT \<and>
   accept demoFetch (candidate ''o/r7'') =
     Some ((candidate ''o/r7'')\<lparr>isRateLimited := Some True\<rparr>) \<and>
   (candidate ''o/r7'')\<lparr>isRateLimited := Some True\<rparr>
     \<in> set (validateLoop demoFetch (firstThree @ candidate ''o/r7'' # []) []) \<and>
   lastPushedAt ((candidate ''o/r7'')\<lparr>isRateLimited := Some True\<rparr>) = None"
proof -
  have a: "nameCheck (candidate ''o/r7'') = Some ''o/r7''"
    by (simp add: name_eval)
  have b: "demoFetch ''o/r7'' = Http 403 None"
    by (simp add: demoFetch_def)
  have c: "length (validateLoop demoFetch firstThree []) < TARGET_COUNT"
    using validateLoop_length_le [of demoFetch firstThree]
    by (simp add: firstThree_def TARGET_COUNT_def)
  have e: "(candidate ''o/r7'')\<lparr>name := ''o/r7''\<rparr> = candidate ''o/r7''"
    by (simp add: candidate_def)
  show ?thesis
    using rate_limited_candidate_accepted [OF a b _ c, of "[]"] a b c e
    by (simp add: candidate_def)
qed

text \<open>
  Claim C8. Every candidate's name \<open>nm\<close> is normalised by removing a leading
  \<open>https://github.com/\<close> or \<open>http://github.com/\<close>, then a trailing \<open>.git\<close>, then white
  space at both ends, then one trailing slash: \<open>nm\<close> is the normalised name with exactly
  these decorations around it, and each decoration that is present is removed. A name
  in canonical form is recovered from any of the prefixes and suffixes. The name check
  discards the candidate exactly when the normalised name contains no slash; a
  candidate that passes it goes on to the metadata lookup. Every accepted entry carries
  the normalised name of its candidate, and that name contains a slash.
\<close>

theorem name_check_and_normalised_names:
  "(\<exists>pre lead sl trail git.
      name c = pre @ concat lead @ cleanName (name c) @ sl @ concat trail @ git \<and>
      pre \<in> {[], ''https://github.com/'', ''http://github.com/''} \<and>
      (pre = [] \<longrightarrow>
         \<not> prefix ''https://github.com/'' (name c) \<and> \<not> prefix ''http://github.com/'' (name c)) \<and>
      git \<in> {[], ''.git''} \<and>
      (git = [] \<longrightarrow>
         \<not> suffix ''.git'' (concat lead @ cleanName (name c) @ sl @ concat trail)) \<and>
      set lead \<subseteq> set whiteSpace \<and> set trail \<subseteq> set whiteSpace \<and>
      (\<forall>w\<in>set whiteSpace.
         \<not> prefix w (cleanName (name c) @ sl) \<and> \<not> suffix w (cleanName (name c) @ sl)) \<and>
      sl \<in> {[], ''/''} \<and> (sl = [] \<longrightarrow> \<not> suffix ''/'' (cleanName (name c)))) \<and>
   (\<forall>n pre suf.
      plainName n \<and> pre \<in> {[], ''https://github.com/'', ''http://github.com/''} \<and>
      suf \<in> {[], ''.git'', ''/''} \<longrightarrow> cleanName (pre @ n @ suf) = n) \<and>
   (nameCheck c = None \<longleftrightarrow> CHR ''/'' \<notin> set (cleanName (name c))) \<and>
   (length acc < TARGET_COUNT \<longrightarrow>
      validateLoop fetch (c # cs) acc =
        (if CHR ''/'' \<notin> set (cleanName (name c)) then validateLoop fetch cs acc
         else case fetchRepoDetails fetch (cleanName (name c)) of
                None \<Rightarrow> validateLoop fetch cs acc
              | Some details \<Rightarrow>
                  validateLoop fetch cs (acc @ [mergeDetails c (cleanName (name c)) details]))) \<and>
   (\<forall>r\<in>set (validateLoop fetch cands []).
      \<exists>k\<in>set cands. name r = cleanName (name k) \<and> CHR ''/'' \<in> set (name r))"
proof -
  have 0: "\<exists>pre lead sl trail git.
      name c = pre @ concat lead @ cleanName (name c) @ sl @ concat trail @ git \<and>
      pre \<in> {[], ''https://github.com/'', ''http://github.com/''} \<and>
      (pre = [] \<longrightarrow>
         \<not> prefix ''https://github.com/'' (name c) \<and> \<not> prefix ''http://github.com/'' (name c)) \<and>
      git \<in> {[], ''.git''} \<and>
      (git = [] \<longrightarrow>
         \<not> suffix ''.git'' (concat lead @ cleanName (name c) @ sl @ concat trail)) \<and>
      set lead \<subseteq> set whiteSpace \<and> set trail \<subseteq> set whiteSpace \<and>
      (\<forall>w\<in>set whiteSpace.
         \<not> prefix w (cleanName (name c) @ sl) \<and> \<not> suffix w (cleanName (name c) @ sl)) \<and>
      sl \<in> {[], ''/''} \<and> (sl = [] \<longrightarrow> \<not> suffix ''/'' (cleanName (name c)))"
    by (rule cleanName_decomp)
  have 1: "\<forall>n pre suf.
      plainName n \<and> pre \<in> {[], ''https://github.com/'', ''http://github.com/''} \<and>
      suf \<in> {[], ''.git'', ''/''} \<longrightarrow> cleanName (pre @ n @ suf) = n"
    using cleanName_decorated by blast
  have 2: "nameCheck c = None \<longleftrightarrow> CHR ''/'' \<notin> set (cleanName (name c))"
    by (rule nameCheck_None_iff)
  have e: "name c = [] \<Longrightarrow> CHR ''/'' \<notin> set (cleanName (name c))"
    using nameCheck_None_iff [of c] by (simp add: nameCheck_def)
  have 3: "length acc < TARGET_COUNT \<longrightarrow>
      validateLoop fetch (c # cs) acc =
        (if CHR ''/'' \<notin> set (cleanName (name c)) then validateLoop fetch cs acc
         else case fetchRepoDetails fetch (cleanName (name c)) of
                None \<Rightarrow> validateLoop fetch cs acc
              | Some details \<Rightarrow>
                  validateLoop fetch cs (acc @ [mergeDetails c (cleanName (name c)) details]))"
    using e by auto
  have 4: "\<forall>r\<in>set (validateLoop fetch cands []).
      \<exists>k\<in>set cands. name r = cleanName (name k) \<and> CHR ''/'' \<in> set (name r)"
    using validateLoop_names by blast
  show ?thesis
    by (intro conjI 0 1 2 3 4)
qed

theorem name_check_and_normalised_names_witness:
  "plainName ''o/r2'' \<and>
   cleanName (''https://github.com/'' @ ''o/r2'' @ ''.git'') = ''o/r2'' \<and>
   plainName ''httpie/cli'' \<and>
   cleanName (''http://github.com/'' @ ''httpie/cli'' @ ''/'') = ''httpie/cli'' \<and>
   cleanName ([] @ ''httpie/cli'' @ ''.git'') = ''httpie/cli'' \<and>
   (\<exists>pre lead sl trail git.
      ''https://github.com/o/r6/ .git'' = pre @ concat lead @ ''o/r6'' @ sl @ concat trail @ git \<and>
      pre \<in> {[], ''https://github.com/'', ''http://github.com/''} \<and> git \<in> {[], ''.git''} \<and>
      set lead \<subseteq> set whiteSpace \<and> set trail \<subseteq> set whiteSpace \<and> sl \<in> {[], ''/''}) \<and>
   nameCheck (candidate ''react'') = None \<and>
   CHR ''/'' \<notin> set (cleanName (name (candidate ''react''))) \<and>
   validateLoop okFetch (candidate ''react'' # firstThree) [] = validateLoop okFetch firstThree [] \<and>
   (\<exists>k\<in>set firstThree. ''o/r3'' = cleanName (name k))"
proof -
  note t = name_check_and_normalised_names
    [of "candidate ''react''" "[]" okFetch firstThree firstThree]
  note u = name_check_and_normalised_names
    [of "candidate ''https://github.com/o/r6/ .git''" "[]" okFetch firstThree firstThree]
  have p: "plainName ''o/r2''" "plainName ''httpie/cli''"
    by (simp_all add: plainName_def) code_simp+
  have a: "cleanName (''https://github.com/'' @ ''o/r2'' @ ''.git'') = ''o/r2''"
    using t [THEN conjunct2, THEN conjunct1] p(1) by blast
  have b: "cleanName (''http://github.com/'' @ ''httpie/cli'' @ ''/'') = ''httpie/cli''"
    "cleanName ([] @ ''httpie/cli'' @ ''.git'') = ''httpie/cli''"
    using t [THEN conjunct2, THEN conjunct1] p(2) by blast+
  have n6: "cleanName ''https://github.com/o/r6/ .git'' = ''o/r6''"
    by code_simp
  have d: "\<exists>pre lead sl trail git.
      ''https://github.com/o/r6/ .git'' = pre @ concat lead @ ''o/r6'' @ sl @ concat trail @ git \<and>
      pre \<in> {[], ''https://github.com/'', ''http://github.com/''} \<and> git \<in> {[], ''.git''} \<and>
      set lead \<subseteq> set whiteSpace \<and> set trail \<subseteq> set whiteSpace \<and> sl \<in> {[], ''/''}"
    using u [THEN conjunct1] unfolding n6 candidate_def Repo.simps by blast
  have n: "CHR ''/'' \<notin> set (cleanName (name (candidate ''react'')))"
    by (simp add: name_eval)
  then have c: "nameCheck (candidate ''react'') = None"
    using t [THEN conjunct2, THEN conjunct2, THEN conjunct1] by blast
  have l: "length ([]::Repo list) < TARGET_COUNT"
    by (simp add: TARGET_COUNT_def)
  have e: "validateLoop okFetch (candidate ''react'' # firstThree) [] =
      validateLoop okFetch firstThree []"
    using t [THEN conjunct2, THEN conjunct2, THEN conjunct2, THEN conjunct1, THEN mp, OF l] n
    by simp
  have m: "(the (accept okFetch (candidate ''o/r3.git''))) \<in> set (validateLoop okFetch firstThree [])"
    by (simp add: validateLoop_take TARGET_COUNT_def firstThree_def accept_def
        fetchRepoDetails_def okFetch_def response_ok_def mergeDetails_def name_eval)
  have "name (the (accept okFetch (candidate ''o/r3.git''))) = ''o/r3''"
    by (simp add: accept_def fetchRepoDetails_def okFetch_def response_ok_def
        mergeDetails_def name_eval)
  with m t [THEN conjunct2, THEN conjunct2, THEN conjunct2, THEN conjunct2]
  have f: "\<exists>k\<in>set firstThree. ''o/r3'' = cleanName (name k)"
    by metis
  show ?thesis
    by (intro conjI p a b d c n e f)
qed

section \<open>Properties of the cache\<close>

lemma loadCache_storage: "localStorage (snd (loadCache toNum tz now frame s)) = localStorage s"
  by (simp add: loadCache_def Let_def addLog_def split: option.splits sum.splits)

lemma loadCache_state:
  "snd (loadCache toNum tz now frame s) = s \<or>
   (\<exists>ts. snd (loadCache toNum tz now frame s) = addLog (LogCacheExpired ts) s)"
  by (auto simp: loadCache_def Let_def split: option.splits sum.splits)

lemma loadCache_only_logs:
  "snd (loadCache toNum tz now frame s) = s\<lparr>logs := logs (snd (loadCache toNum tz now frame s))\<rparr> \<and>
   (logs (snd (loadCache toNum tz now frame s)) = logs s \<or>
    (\<exists>ts. logs (snd (loadCache toNum tz now frame s)) = logs s @ [LogCacheExpired ts]))"
  using loadCache_state [of toNum tz now frame s] by (auto simp: addLog_def)

lemma loadCache_Some:
  assumes "fst (loadCache toNum tz now frame s) = Some entry"
  shows "\<exists>data ts.
           localStorage s (CACHE_PREFIX @ frameText frame) = Some (Json entry) \<and>
           getProp entry ''data'' = Inr (Some data) \<and>
           getProp entry ''timestamp'' = Inr (Some ts) \<and>
           truthy (Some data) \<and> truthy (Some ts) \<and>
           \<not> jsLess toNum (Some ts) (getLatestCheckpoint tz now) \<and>
           snd (loadCache toNum tz now frame s) = s"
  using assms
  by (auto simp: loadCache_def Let_def JSON_parse_def truthy_def
      split: option.splits sum.splits blob.splits if_splits)

lemma jsLess_num: "jsLess toNum (Some (JNum n)) k \<longleftrightarrow> n < k"
  by (simp add: jsLess_def)

lemma jsLess_other:
  "\<forall>n. w \<noteq> JNum n \<Longrightarrow>
   jsLess toNum (Some w) k \<longleftrightarrow> (case toNum w of None \<Rightarrow> False | Some m \<Rightarrow> m < k)"
  by (cases w) (simp_all add: jsLess_def)

lemma loadCache_stale:
  assumes "localStorage s (CACHE_PREFIX @ frameText frame) = Some (Json entry)"
    and "getProp entry ''timestamp'' = Inr (Some (JNum n))"
    and "n < getLatestCheckpoint tz now"
  shows "fst (loadCache toNum tz now frame s) = None"
proof (cases "fst (loadCache toNum tz now frame s)")
  case None
  then show ?thesis .
next
  case (Some e)
  from loadCache_Some [OF Some] assms show ?thesis
    by (auto simp: jsLess_num)
qed

lemma loadCache_stale_logged:
  assumes "localStorage s (CACHE_PREFIX @ frameText frame) = Some (Json entry)"
    and "getProp entry ''data'' = Inr (Some data)" and "truthy (Some data)"
    and "getProp entry ''timestamp'' = Inr (Some (JNum n))"
    and "n \<noteq> 0" and "n < getLatestCheckpoint tz now"
  shows "loadCache toNum tz now frame s = (None, addLog (LogCacheExpired (Some (JNum n))) s)"
  using assms
  by (simp add: loadCache_def Let_def JSON_parse_def truthy_def emptyText_def jsLess_num)

lemma loadCache_falsy_silent:
  assumes "localStorage s (CACHE_PREFIX @ frameText frame) = Some (Json entry)"
    and "getProp entry ''data'' = Inr data"
    and "getProp entry ''timestamp'' = Inr ts"
    and "\<not> truthy data \<or> \<not> truthy ts"
  shows "loadCache toNum tz now frame s = (None, s)"
  using assms
  by (auto simp: loadCache_def Let_def JSON_parse_def emptyText_def)

text \<open>
  Claim C3 (amended). \<open>loadCache\<close> returns an entry only when the stored blob parses as
  JSON, both \<open>data\<close> and \<open>timestamp\<close> are present and truthy, and \<open>timestamp < checkpoint\<close>
  is false; the entry returned is the stored one and nothing is logged. For a numeric
  timestamp that means \<open>timestamp \<ge> getLatestCheckpoint(now)\<close>; a timestamp that is not a
  number is compared after JavaScript's coercion and passes when that gives \<open>NaN\<close>.
  Whenever the stored timestamp is a number below the checkpoint, \<open>loadCache\<close> returns
  \<open>null\<close>; it appends one expiry line to the log when \<open>data\<close> is truthy and the timestamp
  is not 0, and logs nothing when \<open>data\<close> or \<open>timestamp\<close> is falsy. In every case the
  storage is left as it was, so no entry is deleted, and only the log can change.
\<close>

theorem loadCache_fresh_or_null:
  "(\<forall>entry. fst (loadCache toNum tz now frame s) = Some entry \<longrightarrow>
      (\<exists>data ts.
         localStorage s (CACHE_PREFIX @ frameText frame) = Some (Json entry) \<and>
         getProp entry ''data'' = Inr (Some data) \<and>
         getProp entry ''timestamp'' = Inr (Some ts) \<and>
         truthy (Some data) \<and> truthy (Some ts) \<and>
         \<not> jsLess toNum (Some ts) (getLatestCheckpoint tz now) \<and>
         (\<forall>n. ts = JNum n \<longrightarrow> getLatestCheckpoint tz now \<le> n) \<and>
         ((\<forall>n. ts \<noteq> JNum n) \<longrightarrow>
            (\<forall>m. toNum ts = Some m \<longrightarrow> getLatestCheckpoint tz now \<le> m)) \<and>
         logs (snd (loadCache toNum tz now frame s)) = logs s)) \<and>
   (\<forall>entry n.
      localStorage s (CACHE_PREFIX @ frameText frame) = Some (Json entry) \<and>
      getProp entry ''timestamp'' = Inr (Some (JNum n)) \<and>
      n < getLatestCheckpoint tz now \<longrightarrow>
        fst (loadCache toNum tz now frame s) = None) \<and>
   (\<forall>entry data n.
      localStorage s (CACHE_PREFIX @ frameText frame) = Some (Json entry) \<and>
      getProp entry ''data'' = Inr (Some data) \<and> truthy (Some data) \<and>
      getProp entry ''timestamp'' = Inr (Some (JNum n)) \<and> n \<noteq> 0 \<and>
      n < getLatestCheckpoint tz now \<longrightarrow>
        logs (snd (loadCache toNum tz now frame s)) =
          logs s @ [LogCacheExpired (Some (JNum n))]) \<and>
   (\<forall>entry data ts.
      localStorage s (CACHE_PREFIX @ frameText frame) = Some (Json entry) \<and>
      getProp entry ''data'' = Inr data \<and> getProp entry ''timestamp'' = Inr ts \<and>
      (\<not> truthy data \<or> \<not> truthy ts) \<longrightarrow>
        loadCache toNum tz now frame s = (None, s)) \<and>
   localStorage (snd (loadCache toNum tz now frame s)) = localStorage s \<and>
   snd (loadCache toNum tz now frame s) =
     s\<lparr>logs := logs (snd (loadCache toNum tz now frame s))\<rparr> \<and>
   (logs (snd (loadCache toNum tz now frame s)) = logs s \<or>
    (\<exists>ts. logs (snd (loadCache toNum tz now frame s)) = logs s @ [LogCacheExpired ts]))"
proof -
  have 1: "\<forall>entry. fst (loadCache toNum tz now frame s) = Some entry \<longrightarrow>
      (\<exists>data ts.
         localStorage s (CACHE_PREFIX @ frameText frame) = Some (Json entry) \<and>
         getProp entry ''data'' = Inr (Some data) \<and>
         getProp entry ''timestamp'' = Inr (Some ts) \<and>
         truthy (Some data) \<and> truthy (Some ts) \<and>
         \<not> jsLess toNum (Some ts) (getLatestCheckpoint tz now) \<and>
         (\<forall>n. ts = JNum n \<longrightarrow> getLatestCheckpoint tz now \<le> n) \<and>
         ((\<forall>n. ts \<noteq> JNum n) \<longrightarrow>
            (\<forall>m. toNum ts = Some m \<longrightarrow> getLatestCheckpoint tz now \<le> m)) \<and>
         logs (snd (loadCache toNum tz now frame s)) = logs s)"
  proof (intro allI impI)
    fix entry
    assume "fst (loadCache toNum tz now frame s) = Some entry"
    from loadCache_Some [OF this] obtain data ts where
      h: "localStorage s (CACHE_PREFIX @ frameText frame) = Some (Json entry)"
        "getProp entry ''data'' = Inr (Some data)"
        "getProp entry ''timestamp'' = Inr (Some ts)"
        "truthy (Some data)" "truthy (Some ts)"
        "\<not> jsLess toNum (Some ts) (getLatestCheckpoint tz now)"
        "snd (loadCache toNum tz now frame s) = s"
      by blast
    have a: "\<forall>n. ts = JNum n \<longrightarrow> getLatestCheckpoint tz now \<le> n"
      using h(6) by (auto simp: jsLess_num)
    have b: "(\<forall>n. ts \<noteq> JNum n) \<longrightarrow>
        (\<forall>m. toNum ts = Some m \<longrightarrow> getLatestCheckpoint tz now \<le> m)"
      using h(6) by (auto simp: jsLess_other)
    have c: "logs (snd (loadCache toNum tz now frame s)) = logs s"
      using h(7) by simp
    from h(1-6) a b c show "\<exists>data ts.
         localStorage s (CACHE_PREFIX @ frameText frame) = Some (Json entry) \<and>
         getProp entry ''data'' = Inr (Some data) \<and>
         getProp entry ''timestamp'' = Inr (Some ts) \<and>
         truthy (Some data) \<and> truthy (Some ts) \<and>
         \<not> jsLess toNum (Some ts) (getLatestCheckpoint tz now) \<and>
         (\<forall>n. ts = JNum n \<longrightarrow> getLatestCheckpoint tz now \<le> n) \<and>
         ((\<forall>n. ts \<noteq> JNum n) \<longrightarrow>
            (\<forall>m. toNum ts = Some m \<longrightarrow> getLatestCheckpoint tz now \<le> m)) \<and>
         logs (snd (loadCache toNum tz now frame s)) = logs s"
      by blast
  qed
  have 2: "\<forall>entry n.
      localStorage s (CACHE_PREFIX @ frameText frame) = Some (Json entry) \<and>
      getProp entry ''timestamp'' = Inr (Some (JNum n)) \<and>
      n < getLatestCheckpoint tz now \<longrightarrow>
        fst (loadCache toNum tz now frame s) = None"
    using loadCache_stale by blast
  have 3: "\<forall>entry data n.
      localStorage s (CACHE_PREFIX @ frameText frame) = Some (Json entry) \<and>
      getProp entry ''data'' = Inr (Some data) \<and> truthy (Some data) \<and>
      getProp entry ''timestamp'' = Inr (Some (JNum n)) \<and> n \<noteq> 0 \<and>
      n < getLatestCheckpoint tz now \<longrightarrow>
        logs (snd (loadCache toNum tz now frame s)) =
          logs s @ [LogCacheExpired (Some (JNum n))]"
  proof (intro allI impI)
    fix entry data n
    assume "localStorage s (CACHE_PREFIX @ frameText frame) = Some (Json entry) \<and>
      getProp entry ''data'' = Inr (Some data) \<and> truthy (Some data) \<and>
      getProp entry ''timestamp'' = Inr (Some (JNum n)) \<and> n \<noteq> 0 \<and>
      n < getLatestCheckpoint tz now"
    then have "loadCache toNum tz now frame s =
        (None, addLog (LogCacheExpired (Some (JNum n))) s)"
      using loadCache_stale_logged [of s frame entry data n tz now toNum] by blast
    then show "logs (snd (loadCache toNum tz now frame s)) =
        logs s @ [LogCacheExpired (Some (JNum n))]"
      by (simp add: addLog_def)
  qed
  have 4: "\<forall>entry data ts.
      localStorage s (CACHE_PREFIX @ frameText frame) = Some (Json entry) \<and>
      getProp entry ''data'' = Inr data \<and> getProp entry ''timestamp'' = Inr ts \<and>
      (\<not> truthy data \<or> \<not> truthy ts) \<longrightarrow>
        loadCache toNum tz now frame s = (None, s)"
    using loadCache_falsy_silent by blast
  have 5: "localStorage (snd (loadCache toNum tz now frame s)) = localStorage s"
    by (rule loadCache_storage)
  note 6 = loadCache_only_logs [of toNum tz now frame s, THEN conjunct1]
  note 7 = loadCache_only_logs [of toNum tz now frame s, THEN conjunct2]
  show ?thesis
    by (intro conjI 1 2 3 4 5 6 7)
qed

lemma atHour_vals: "atHour 0 0 5 = 18000000" "getLatestCheckpoint 0 21600000 = 18000000"
  by (simp_all add: atHour_def getLatestCheckpoint_def setHours_def HOUR_def DAY_def)

theorem loadCache_fresh_or_null_witness:
  "fst (loadCache noCoercion 0 21600000 TF7d (appWith TF7d (Json freshEntry))) = Some freshEntry \<and>
   getProp freshEntry ''timestamp'' = Inr (Some (JNum 18000000)) \<and>
   getLatestCheckpoint 0 21600000 \<le> 18000000 \<and>
   localStorage (appWith TF7d (Json staleEntry)) (CACHE_PREFIX @ frameText TF7d)
     = Some (Json staleEntry) \<and>
   getProp staleEntry ''timestamp'' = Inr (Some (JNum 17999999)) \<and>
   17999999 < getLatestCheckpoint 0 21600000 \<and>
   fst (loadCache noCoercion 0 21600000 TF7d (appWith TF7d (Json staleEntry))) = None \<and>
   logs (snd (loadCache noCoercion 0 21600000 TF7d (appWith TF7d (Json staleEntry)))) =
     [LogInitialized, LogWaiting, LogCacheExpired (Some (JNum 17999999))] \<and>
   localStorage (snd (loadCache noCoercion 0 21600000 TF7d (appWith TF7d (Json staleEntry))))
     (CACHE_PREFIX @ frameText TF7d) = Some (Json staleEntry) \<and>
   loadCache noCoercion 0 21600000 TF7d (appWith TF7d (Json zeroEntry)) =
     (None, appWith TF7d (Json zeroEntry))"
proof -
  note f = loadCache_fresh_or_null [of noCoercion 0 21600000 TF7d "appWith TF7d (Json freshEntry)"]
  note t = loadCache_fresh_or_null [of noCoercion 0 21600000 TF7d "appWith TF7d (Json staleEntry)"]
  note z = loadCache_fresh_or_null [of noCoercion 0 21600000 TF7d "appWith TF7d (Json zeroEntry)"]
  have a: "fst (loadCache noCoercion 0 21600000 TF7d (appWith TF7d (Json freshEntry)))
      = Some freshEntry"
    by (simp add: loadCache_def appWith_def initialApp_def emptyText_def JSON_parse_def
        freshEntry_def cacheEntry_def reposJson_def getProp_def truthy_def jsLess_def
        atHour_vals)
  have b: "getProp freshEntry ''timestamp'' = Inr (Some (JNum 18000000))"
    by (simp add: freshEntry_def cacheEntry_def getProp_def atHour_vals)
  from f [THEN conjunct1, rule_format, OF a] obtain data ts where
    k: "getProp freshEntry ''timestamp'' = Inr (Some ts)"
      "\<forall>n. ts = JNum n \<longrightarrow> getLatestCheckpoint 0 21600000 \<le> n"
    by blast
  from k(1) b have "ts = JNum 18000000"
    by simp
  with k(2) have c: "getLatestCheckpoint 0 21600000 \<le> 18000000"
    by simp
  have d: "localStorage (appWith TF7d (Json staleEntry)) (CACHE_PREFIX @ frameText TF7d)
     = Some (Json staleEntry)"
    by (simp add: appWith_def initialApp_def)
  have e: "getProp staleEntry ''timestamp'' = Inr (Some (JNum 17999999))"
    "getProp staleEntry ''data'' = Inr (Some (reposJson [candidate ''o/r1'']))"
    "truthy (Some (reposJson [candidate ''o/r1'']))"
    by (simp_all add: staleEntry_def cacheEntry_def reposJson_def getProp_def atHour_vals
        truthy_def)
  have g: "(17999999::int) < getLatestCheckpoint 0 21600000" "(17999999::int) \<noteq> 0"
    by (simp_all add: atHour_vals)
  have h1: "fst (loadCache noCoercion 0 21600000 TF7d (appWith TF7d (Json staleEntry))) = None"
    using t [THEN conjunct2, THEN conjunct1, rule_format, of staleEntry 17999999] d e(1) g(1)
    by simp
  have h2: "logs (snd (loadCache noCoercion 0 21600000 TF7d (appWith TF7d (Json staleEntry)))) =
     [LogInitialized, LogWaiting, LogCacheExpired (Some (JNum 17999999))]"
    using t [THEN conjunct2, THEN conjunct2, THEN conjunct1, rule_format,
        of staleEntry "reposJson [candidate ''o/r1'']" 17999999] d e g
    by (simp add: appWith_def initialApp_def)
  have i:
    "localStorage (snd (loadCache noCoercion 0 21600000 TF7d (appWith TF7d (Json staleEntry))))
     (CACHE_PREFIX @ frameText TF7d) = Some (Json staleEntry)"
    using t [THEN conjunct2, THEN conjunct2, THEN conjunct2, THEN conjunct2, THEN conjunct1] d
    by simp
  have zd: "localStorage (appWith TF7d (Json zeroEntry)) (CACHE_PREFIX @ frameText TF7d)
     = Some (Json zeroEntry)"
    "getProp zeroEntry ''data'' = Inr (Some (reposJson [candidate ''o/r1'']))"
    "getProp zeroEntry ''timestamp'' = Inr (Some (JNum 0))"
    "\<not> truthy (Some (JNum 0))"
    by (simp_all add: appWith_def initialApp_def zeroEntry_def cacheEntry_def getProp_def
        truthy_def)
  have j: "loadCache noCoercion 0 21600000 TF7d (appWith TF7d (Json zeroEntry)) =
     (None, appWith TF7d (Json zeroEntry))"
    using z [THEN conjunct2, THEN conjunct2, THEN conjunct2, THEN conjunct1, rule_format,
        of zeroEntry "Some (reposJson [candidate ''o/r1''])" "Some (JNum 0)"] zd
    by simp
  show ?thesis
    by (intro conjI a b c d e(1) g(1) h1 h2 i j)
qed

text \<open>
  Claim C3 as stated fails in two places. An entry with both fields and timestamp 0 is
  below the checkpoint and is ignored, but nothing is logged: the check of
  \<open>!parsed.timestamp\<close> returns first. An entry whose timestamp is the text \<open>abc\<close> is
  returned although its timestamp is not at or after the checkpoint: \<open>'abc' < checkpoint\<close>
  is false.
\<close>

theorem loadCache_unlogged_or_unordered:
  "getProp zeroEntry ''data'' = Inr (Some (reposJson [candidate ''o/r1''])) \<and>
   getProp zeroEntry ''timestamp'' = Inr (Some (JNum 0)) \<and>
   0 < getLatestCheckpoint 0 21600000 \<and>
   fst (loadCache noCoercion 0 21600000 TF7d (appWith TF7d (Json zeroEntry))) = None \<and>
   logs (snd (loadCache noCoercion 0 21600000 TF7d (appWith TF7d (Json zeroEntry)))) =
     logs (appWith TF7d (Json zeroEntry)) \<and>
   getProp textEntry ''timestamp'' = Inr (Some (JStr ''abc'')) \<and>
   noCoercion (JStr ''abc'') = None \<and>
   fst (loadCache noCoercion 0 21600000 TF7d (appWith TF7d (Json textEntry))) = Some textEntry"
  by (simp add: loadCache_def appWith_def initialApp_def emptyText_def JSON_parse_def
      zeroEntry_def textEntry_def cacheEntry_def reposJson_def getProp_def truthy_def
      jsLess_def noCoercion_def atHour_vals)


section \<open>Properties of the favorites vault\<close>

lemma getProp_repoToJson: "getProp (repoToJson f) ''name'' = Inr (Some (JStr (name f)))"
  by (simp add: getProp_def repoToJson_def)

lemma someNamed_typed: "someNamed nm (map repoToJson fs) = Inr (nm \<in> set (map name fs))"
  by (induction fs) (auto simp: getProp_repoToJson)

lemma filterNotNamed_typed:
  "filterNotNamed nm (map repoToJson fs) = Inr (map repoToJson (filter (\<lambda>f. name f \<noteq> nm) fs))"
  by (induction fs) (auto simp: getProp_repoToJson)

lemma toggleFavorite_typed:
  assumes "favorites s = reposJson favs"
  shows "toggleFavorite r s =
           Inr ((addLog (if name r \<in> set (map name favs) then LogFavRemoved (name r)
                         else LogFavAdded (name r)) s)
                 \<lparr>localStorage :=
                    (localStorage s)(FAV_STORAGE_KEY \<mapsto>
                       JSON_stringify
                         (reposJson (if name r \<in> set (map name favs)
                                     then filter (\<lambda>f. name f \<noteq> name r) favs
                                     else favs @ [r]))),
                  favorites :=
                    reposJson (if name r \<in> set (map name favs)
                               then filter (\<lambda>f. name f \<noteq> name r) favs
                               else favs @ [r])\<rparr>)"
  using assms
  by (simp add: toggleFavorite_def reposJson_def someNamed_typed filterNotNamed_typed Let_def
      addLog_def)

lemma toggleFavorite_result:
  assumes "favorites s = reposJson favs"
  shows "\<exists>s1. toggleFavorite r s = Inr s1 \<and>
           favorites s1 =
             reposJson (if name r \<in> set (map name favs)
                        then filter (\<lambda>f. name f \<noteq> name r) favs else favs @ [r]) \<and>
           logs s1 = logs s @ [if name r \<in> set (map name favs) then LogFavRemoved (name r)
                               else LogFavAdded (name r)] \<and>
           localStorage s1 FAV_STORAGE_KEY = Some (JSON_stringify (favorites s1))"
  by (simp add: toggleFavorite_typed [OF assms] addLog_def)

lemma filter_absent: "x \<notin> set (map name fs) \<Longrightarrow> filter (\<lambda>f. name f \<noteq> x) fs = fs"
  by (induction fs) auto

lemma filter_drops_name: "x \<notin> set (map name (filter (\<lambda>f. name f \<noteq> x) fs))"
  by (induction fs) auto

lemma replaced_same_set:
  assumes "name r' = x" "x \<in> set (map name fs)"
  shows "set (filter (\<lambda>f. name f \<noteq> x) fs @ [r']) = set fs \<longleftrightarrow>
           r' \<in> set fs \<and> (\<forall>f\<in>set fs. name f = x \<longrightarrow> f = r')"
proof
  assume eq: "set (filter (\<lambda>f. name f \<noteq> x) fs @ [r']) = set fs"
  then have a: "r' \<in> set fs"
    by auto
  have "f = r'" if "f \<in> set fs" "name f = x" for f
  proof -
    from that(1) eq have "f \<in> set (filter (\<lambda>f. name f \<noteq> x) fs @ [r'])"
      by simp
    with that(2) show ?thesis by auto
  qed
  with a show "r' \<in> set fs \<and> (\<forall>f\<in>set fs. name f = x \<longrightarrow> f = r')"
    by blast
next
  assume "r' \<in> set fs \<and> (\<forall>f\<in>set fs. name f = x \<longrightarrow> f = r')"
  then show "set (filter (\<lambda>f. name f \<noteq> x) fs @ [r']) = set fs"
    by auto
qed

lemma unique_name_entry:
  assumes "distinct (map name fs)" "r' \<in> set fs"
  shows "\<forall>f\<in>set fs. name f = name r' \<longrightarrow> f = r'"
  using assms distinct_map [of name fs] by (auto simp: inj_on_def)

text \<open>
  Claim C6 (amended). On a favorites list of records, toggling a record and then
  toggling again with a record of the same name succeeds both times and returns the
  favorites to their original membership by name. If the name was not a favorite, the
  list is exactly the original one. If it was, every entry of that name has been
  removed and the record of the second toggle stands at the end of the list; the
  records are then the original ones (as a set) exactly when that record is among the
  stored ones and every stored entry of its name equals it, in particular if names are
  unique and it is the stored one. Each toggle logs one line and writes the whole new
  list to storage.
\<close>

theorem toggleFavorite_twice:
  "favorites s = reposJson favs \<and> name r' = name r \<longrightarrow>
     (\<exists>s1 s2 favs2.
        toggleFavorite r s = Inr s1 \<and> toggleFavorite r' s1 = Inr s2 \<and>
        favorites s2 = reposJson favs2 \<and>
        set (map name favs2) = set (map name favs) \<and>
        (name r \<notin> set (map name favs) \<longrightarrow> favs2 = favs \<and> favorites s2 = favorites s) \<and>
        (name r \<in> set (map name favs) \<longrightarrow>
           favs2 = filter (\<lambda>f. name f \<noteq> name r) favs @ [r'] \<and>
           (set favs2 = set favs \<longleftrightarrow>
              r' \<in> set favs \<and> (\<forall>f\<in>set favs. name f = name r \<longrightarrow> f = r'))) \<and>
        (distinct (map name favs) \<and> r' \<in> set favs \<longrightarrow> set favs2 = set favs) \<and>
        length (logs s2) = length (logs s) + 2 \<and>
        localStorage s1 FAV_STORAGE_KEY = Some (JSON_stringify (favorites s1)) \<and>
        localStorage s2 FAV_STORAGE_KEY = Some (JSON_stringify (favorites s2)))"
proof
  assume h: "favorites s = reposJson favs \<and> name r' = name r"
  then have fs: "favorites s = reposJson favs" and nm: "name r' = name r"
    by blast+
  let ?favs1 = "if name r \<in> set (map name favs)
                then filter (\<lambda>f. name f \<noteq> name r) favs else favs @ [r]"
  let ?favs2 = "if name r \<in> set (map name favs)
                then filter (\<lambda>f. name f \<noteq> name r) favs @ [r'] else favs"
  obtain s1 where s1: "toggleFavorite r s = Inr s1" "favorites s1 = reposJson ?favs1"
    "logs s1 = logs s @ [if name r \<in> set (map name favs) then LogFavRemoved (name r)
                         else LogFavAdded (name r)]"
    "localStorage s1 FAV_STORAGE_KEY = Some (JSON_stringify (favorites s1))"
    using toggleFavorite_result [OF fs, of r] by blast
  obtain s2 where s2: "toggleFavorite r' s1 = Inr s2"
    "favorites s2 =
       reposJson (if name r' \<in> set (map name ?favs1)
                  then filter (\<lambda>f. name f \<noteq> name r') ?favs1 else ?favs1 @ [r'])"
    "logs s2 = logs s1 @ [if name r' \<in> set (map name ?favs1) then LogFavRemoved (name r')
                          else LogFavAdded (name r')]"
    "localStorage s2 FAV_STORAGE_KEY = Some (JSON_stringify (favorites s2))"
    using toggleFavorite_result [OF s1(2), of r'] by blast
  have second: "(if name r' \<in> set (map name ?favs1)
                 then filter (\<lambda>f. name f \<noteq> name r') ?favs1 else ?favs1 @ [r']) = ?favs2"
  proof (cases "name r \<in> set (map name favs)")
    case True
    then show ?thesis
      using filter_drops_name [of "name r" favs] by (simp add: nm)
  next
    case False
    then show ?thesis
      by (simp add: nm filter_absent)
  qed
  have a: "favorites s2 = reposJson ?favs2"
    using s2(2) second by simp
  have b: "set (map name ?favs2) = set (map name favs)"
    using nm by auto
  have c: "name r \<notin> set (map name favs) \<longrightarrow> ?favs2 = favs \<and> favorites s2 = favorites s"
    using a fs by simp
  have d: "name r \<in> set (map name favs) \<longrightarrow>
           ?favs2 = filter (\<lambda>f. name f \<noteq> name r) favs @ [r'] \<and>
           (set ?favs2 = set favs \<longleftrightarrow>
              r' \<in> set favs \<and> (\<forall>f\<in>set favs. name f = name r \<longrightarrow> f = r'))"
    using replaced_same_set [OF nm, of favs] by simp
  have e: "distinct (map name favs) \<and> r' \<in> set favs \<longrightarrow> set ?favs2 = set favs"
  proof
    assume u: "distinct (map name favs) \<and> r' \<in> set favs"
    then have "name r' \<in> name ` set favs"
      by blast
    then have p: "name r \<in> set (map name favs)"
      using nm by simp
    have "\<forall>f\<in>set favs. name f = name r \<longrightarrow> f = r'"
      using unique_name_entry [of favs r'] u nm by simp
    with u p d show "set ?favs2 = set favs"
      by blast
  qed
  have f: "length (logs s2) = length (logs s) + 2"
    using s1(3) s2(3) by simp
  from s1(1) s2(1) a b c d e f s1(4) s2(4)
  show "\<exists>s1 s2 favs2.
        toggleFavorite r s = Inr s1 \<and> toggleFavorite r' s1 = Inr s2 \<and>
        favorites s2 = reposJson favs2 \<and>
        set (map name favs2) = set (map name favs) \<and>
        (name r \<notin> set (map name favs) \<longrightarrow> favs2 = favs \<and> favorites s2 = favorites s) \<and>
        (name r \<in> set (map name favs) \<longrightarrow>
           favs2 = filter (\<lambda>f. name f \<noteq> name r) favs @ [r'] \<and>
           (set favs2 = set favs \<longleftrightarrow>
              r' \<in> set favs \<and> (\<forall>f\<in>set favs. name f = name r \<longrightarrow> f = r'))) \<and>
        (distinct (map name favs) \<and> r' \<in> set favs \<longrightarrow> set favs2 = set favs) \<and>
        length (logs s2) = length (logs s) + 2 \<and>
        localStorage s1 FAV_STORAGE_KEY = Some (JSON_stringify (favorites s1)) \<and>
        localStorage s2 FAV_STORAGE_KEY = Some (JSON_stringify (favorites s2))"
    by blast
qed

lemma andThen_Inr: "r = Inr s1 \<Longrightarrow> andThen r h = h s1"
  by (simp add: andThen_def)

theorem toggleFavorite_twice_witness:
  "andThen (toggleFavorite (candidate ''o/r1'') (initialApp Map.empty))
     (toggleFavorite (candidate ''o/r2'')) = Inr vaultApp \<and>
   favorites vaultApp = reposJson [candidate ''o/r1'', candidate ''o/r2''] \<and>
   name (candidate ''o/r1'') \<in> set (map name [candidate ''o/r1'', candidate ''o/r2'']) \<and>
   (\<exists>s2. andThen (toggleFavorite (candidate ''o/r1'') vaultApp)
            (toggleFavorite (candidate ''o/r1'')) = Inr s2 \<and>
          favorites s2 = reposJson [candidate ''o/r2'', candidate ''o/r1''] \<and>
          localStorage s2 FAV_STORAGE_KEY =
            Some (Json (reposJson [candidate ''o/r2'', candidate ''o/r1'']))) \<and>
   name (candidate ''o/r9'') \<notin> set (map name [candidate ''o/r1'', candidate ''o/r2'']) \<and>
   (\<exists>s2. andThen (toggleFavorite (candidate ''o/r9'') vaultApp)
            (toggleFavorite (candidate ''o/r9'')) = Inr s2 \<and>
          favorites s2 = favorites vaultApp)"
proof -
  let ?favs = "[candidate ''o/r1'', candidate ''o/r2'']"
  note p = toggleFavorite_twice [of vaultApp ?favs "candidate ''o/r1''" "candidate ''o/r1''"]
  note q = toggleFavorite_twice [of vaultApp ?favs "candidate ''o/r9''" "candidate ''o/r9''"]
  have v: "favorites vaultApp = reposJson ?favs"
    by (simp add: vaultApp_def)
  have i: "favorites (initialApp Map.empty) = reposJson []"
    by (simp add: initialApp_def)
  have r: "andThen (toggleFavorite (candidate ''o/r1'') (initialApp Map.empty))
     (toggleFavorite (candidate ''o/r2'')) = Inr vaultApp"
    by (simp add: andThen_def toggleFavorite_typed [OF i]
        toggleFavorite_typed [of _ "[candidate ''o/r1'']"])
      (simp add: vaultApp_def initialApp_def addLog_def JSON_stringify_def candidate_def)
  have a: "name (candidate ''o/r1'') \<in> set (map name ?favs)"
    "name (candidate ''o/r9'') \<notin> set (map name ?favs)"
    by (simp_all add: candidate_def)
  from p [THEN mp, OF conjI [OF v refl]] obtain s1 s2 favs2 where
    x: "toggleFavorite (candidate ''o/r1'') vaultApp = Inr s1"
      "toggleFavorite (candidate ''o/r1'') s1 = Inr s2"
      "favorites s2 = reposJson favs2"
      "name (candidate ''o/r1'') \<in> set (map name ?favs) \<longrightarrow>
         favs2 = filter (\<lambda>f. name f \<noteq> name (candidate ''o/r1'')) ?favs @ [candidate ''o/r1'']"
      "localStorage s2 FAV_STORAGE_KEY = Some (JSON_stringify (favorites s2))"
    by blast
  from x(4) a(1) have "favs2 = [candidate ''o/r2'', candidate ''o/r1'']"
    by (simp add: candidate_def)
  with x have b: "\<exists>s2. andThen (toggleFavorite (candidate ''o/r1'') vaultApp)
            (toggleFavorite (candidate ''o/r1'')) = Inr s2 \<and>
          favorites s2 = reposJson [candidate ''o/r2'', candidate ''o/r1''] \<and>
          localStorage s2 FAV_STORAGE_KEY =
            Some (Json (reposJson [candidate ''o/r2'', candidate ''o/r1'']))"
    by (simp add: andThen_def JSON_stringify_def)
  from q [THEN mp, OF conjI [OF v refl]] obtain t1 t2 favs3 where
    y: "toggleFavorite (candidate ''o/r9'') vaultApp = Inr t1"
      "toggleFavorite (candidate ''o/r9'') t1 = Inr t2"
      "name (candidate ''o/r9'') \<notin> set (map name ?favs) \<longrightarrow>
         favs3 = ?favs \<and> favorites t2 = favorites vaultApp"
    by blast
  with a(2) have c: "\<exists>s2. andThen (toggleFavorite (candidate ''o/r9'') vaultApp)
            (toggleFavorite (candidate ''o/r9'')) = Inr s2 \<and>
          favorites s2 = favorites vaultApp"
    by (simp add: andThen_def)
  show ?thesis
    by (intro conjI r v a b c)
qed

text \<open>
  Claim C6 as stated fails on "contents": a stored favorite \<open>o/r1\<close> toggled twice through
  a rescanned record of the same name is replaced by that record, which is not among the
  original favorites.
\<close>

theorem toggleFavorite_twice_changes_contents:
  "name rescanned = name (candidate ''o/r1'') \<and>
   favorites vaultApp = reposJson [candidate ''o/r1'', candidate ''o/r2''] \<and>
   map_sum id favorites
     (andThen (toggleFavorite rescanned vaultApp) (toggleFavorite rescanned)) =
     Inr (reposJson [candidate ''o/r2'', rescanned]) \<and>
   repoToJson (candidate ''o/r1'') \<noteq> repoToJson rescanned \<and>
   repoToJson (candidate ''o/r1'') \<noteq> repoToJson (candidate ''o/r2'') \<and>
   rescanned \<noteq> candidate ''o/r1''"
proof -
  have v: "favorites vaultApp = reposJson [candidate ''o/r1'', candidate ''o/r2'']"
    by (simp add: vaultApp_def)
  have n: "name rescanned = name (candidate ''o/r1'')"
    by (simp add: rescanned_def candidate_def)
  have t: "map_sum id favorites
     (andThen (toggleFavorite rescanned vaultApp) (toggleFavorite rescanned)) =
     Inr (reposJson [candidate ''o/r2'', rescanned])"
    by (simp add: andThen_def toggleFavorite_typed [OF v]
        toggleFavorite_typed [of _ "[candidate ''o/r2'']"] n)
      (simp add: candidate_def rescanned_def)
  have d: "repoToJson (candidate ''o/r1'') \<noteq> repoToJson rescanned"
    "repoToJson (candidate ''o/r1'') \<noteq> repoToJson (candidate ''o/r2'')"
    "rescanned \<noteq> candidate ''o/r1''"
    by (simp_all add: repoToJson_def optField_def candidate_def rescanned_def)
  show ?thesis
    by (intro conjI n v t d)
qed

lemma loadCache_favorites: "favorites (snd (loadCache toNum tz now frame s)) = favorites s"
  using loadCache_state [of toNum tz now frame s] by (auto simp: addLog_def)

lemma handleScan_start_storage:
  "localStorage (fst (handleScan_start toNum tz now frame force s)) = localStorage s"
  using loadCache_storage [of toNum tz now frame "s\<lparr>activeTab := frame, activeTabRef := frame\<rparr>"]
  by (auto simp: handleScan_start_def Let_def addLog_def split: prod.splits option.splits)

lemma handleScan_start_favorites:
  "favorites (fst (handleScan_start toNum tz now frame force s)) = favorites s"
  using loadCache_favorites [of toNum tz now frame "s\<lparr>activeTab := frame, activeTabRef := frame\<rparr>"]
  by (auto simp: handleScan_start_def Let_def addLog_def split: prod.splits option.splits)

lemma legacy_detected: "names \<noteq> [] \<Longrightarrow> isLegacyFavorites (JArr (map JStr names))"
  by (cases names) (simp_all add: isLegacyFavorites_def)

lemma loadFavorites_legacy:
  assumes "localStorage s FAV_STORAGE_KEY = Some (Json (JArr (map JStr names)))" "names \<noteq> []"
  shows "loadFavorites s = s\<lparr>localStorage := (localStorage s)(FAV_STORAGE_KEY := None)\<rparr>"
  using assms legacy_detected [of names]
  by (simp add: loadFavorites_def emptyText_def JSON_parse_def)

text \<open>
  Claim C9. On application start, a persisted favorites blob that is a (non-empty) list of
  plain name strings is removed from storage, nothing of it enters the state, and the
  favorites are the empty array once the initial load effect has run.
\<close>

theorem legacy_favorites_discarded:
  "storage FAV_STORAGE_KEY = Some (Json (JArr (map JStr names))) \<and> names \<noteq> [] \<longrightarrow>
     loadFavorites (initialApp storage) =
       (initialApp storage)\<lparr>localStorage := storage(FAV_STORAGE_KEY := None)\<rparr> \<and>
     favorites (fst (initialLoad toNum tz now (initialApp storage))) = reposJson [] \<and>
     localStorage (fst (initialLoad toNum tz now (initialApp storage))) FAV_STORAGE_KEY = None"
proof
  assume a: "storage FAV_STORAGE_KEY = Some (Json (JArr (map JStr names))) \<and> names \<noteq> []"
  let ?s = "addLog LogReady (initialApp storage)"
  have l: "localStorage ?s FAV_STORAGE_KEY = Some (Json (JArr (map JStr names)))"
    using a by (simp add: addLog_def initialApp_def)
  have f: "loadFavorites ?s = ?s\<lparr>localStorage := (localStorage ?s)(FAV_STORAGE_KEY := None)\<rparr>"
    using loadFavorites_legacy [OF l] a by simp
  have 1: "loadFavorites (initialApp storage) =
       (initialApp storage)\<lparr>localStorage := storage(FAV_STORAGE_KEY := None)\<rparr>"
    using loadFavorites_legacy [of "initialApp storage" names] a by (simp add: initialApp_def)
  have 2: "favorites (fst (initialLoad toNum tz now (initialApp storage))) = reposJson []"
    by (simp add: initialLoad_def handleScan_start_favorites f) (simp add: addLog_def initialApp_def)
  have 3: "localStorage (fst (initialLoad toNum tz now (initialApp storage))) FAV_STORAGE_KEY = None"
    by (simp add: initialLoad_def handleScan_start_storage f)
  from 1 2 3 show "loadFavorites (initialApp storage) =
       (initialApp storage)\<lparr>localStorage := storage(FAV_STORAGE_KEY := None)\<rparr> \<and>
     favorites (fst (initialLoad toNum tz now (initialApp storage))) = reposJson [] \<and>
     localStorage (fst (initialLoad toNum tz now (initialApp storage))) FAV_STORAGE_KEY = None"
    by blast
qed

theorem legacy_favorites_discarded_witness:
  "legacyStorage FAV_STORAGE_KEY = Some (Json (JArr (map JStr [''a/b'', ''c/d'']))) \<and>
   favorites (fst (initialLoad noCoercion 0 21600000 (initialApp legacyStorage))) =
     reposJson [] \<and>
   localStorage (fst (initialLoad noCoercion 0 21600000 (initialApp legacyStorage)))
     FAV_STORAGE_KEY = None"
proof -
  have a: "legacyStorage FAV_STORAGE_KEY = Some (Json (JArr (map JStr [''a/b'', ''c/d''])))"
    by (simp add: legacyStorage_def)
  have b: "[''a/b'', ''c/d''] \<noteq> []"
    by simp
  from legacy_favorites_discarded [of legacyStorage "[''a/b'', ''c/d'']" noCoercion 0 21600000,
      THEN mp, OF conjI [OF a b]] a
  show ?thesis by blast
qed


section \<open>Properties of the scan orchestrator\<close>

lemma handleScan_start_ref:
  "activeTabRef (fst (handleScan_start toNum tz now frame force s)) = frame"
proof -
  have "activeTabRef (snd (loadCache toNum tz now frame s')) = activeTabRef s'" for s'
    using loadCache_state [of toNum tz now frame s'] by (auto simp: addLog_def)
  then show ?thesis
    by (auto simp: handleScan_start_def Let_def addLog_def split: prod.splits option.splits)
      (metis App.select_convs(2) App.surjective App.update_convs(1,2) snd_conv)+
qed

lemma handleScan_fulfilled_same:
  assumes "activeTabRef s = frame"
  shows "repos (handleScan_fulfilled now frame results s) = Some (reposJson results) \<and>
         localStorage (handleScan_fulfilled now frame results s) (CACHE_PREFIX @ frameText frame)
           = Some (JSON_stringify (cacheEntry results now)) \<and>
         lastUpdated (handleScan_fulfilled now frame results s) = Some (JNum now) \<and>
         status (handleScan_fulfilled now frame results s) = COMPLETE"
  using assms by (simp add: handleScan_fulfilled_def saveCache_def Let_def addLog_def)


text \<open>
  Claim C1 (amended). A scan for window \<open>W\<close> that completes, with results or with an
  error, while the active-window pointer differs from \<open>W\<close> changes nothing: no state
  update, no log line, no cache write; in particular right after a scan for another
  window has started. A scan that completes while the pointer equals \<open>W\<close> displays and
  caches its results, whichever scan for \<open>W\<close> it is: the pointer does not tell an
  earlier scan for \<open>W\<close> from a later, forced one.
\<close>

theorem stale_scan_discarded_by_window:
  "(activeTabRef s \<noteq> frame \<longrightarrow>
      handleScan_fulfilled now frame results s = s \<and>
      handleScan_rejected frame message s = (s, None)) \<and>
   (other \<noteq> frame \<longrightarrow>
      handleScan_fulfilled now frame results
        (fst (handleScan_start toNum tz now' other force s)) =
        fst (handleScan_start toNum tz now' other force s) \<and>
      handleScan_rejected frame message
        (fst (handleScan_start toNum tz now' other force s)) =
        (fst (handleScan_start toNum tz now' other force s), None)) \<and>
   (activeTabRef s = frame \<longrightarrow>
      repos (handleScan_fulfilled now frame results s) = Some (reposJson results) \<and>
      localStorage (handleScan_fulfilled now frame results s) (CACHE_PREFIX @ frameText frame)
        = Some (JSON_stringify (cacheEntry results now)) \<and>
      lastUpdated (handleScan_fulfilled now frame results s) = Some (JNum now) \<and>
      status (handleScan_fulfilled now frame results s) = COMPLETE)"
proof -
  have 1: "activeTabRef s \<noteq> frame \<longrightarrow>
      handleScan_fulfilled now frame results s = s \<and>
      handleScan_rejected frame message s = (s, None)"
    by (simp add: handleScan_fulfilled_def handleScan_rejected_def)
  have 2: "other \<noteq> frame \<longrightarrow>
      handleScan_fulfilled now frame results
        (fst (handleScan_start toNum tz now' other force s)) =
        fst (handleScan_start toNum tz now' other force s) \<and>
      handleScan_rejected frame message
        (fst (handleScan_start toNum tz now' other force s)) =
        (fst (handleScan_start toNum tz now' other force s), None)"
    by (simp add: handleScan_fulfilled_def handleScan_rejected_def handleScan_start_ref)
  have 3: "activeTabRef s = frame \<longrightarrow>
      repos (handleScan_fulfilled now frame results s) = Some (reposJson results) \<and>
      localStorage (handleScan_fulfilled now frame results s) (CACHE_PREFIX @ frameText frame)
        = Some (JSON_stringify (cacheEntry results now)) \<and>
      lastUpdated (handleScan_fulfilled now frame results s) = Some (JNum now) \<and>
      status (handleScan_fulfilled now frame results s) = COMPLETE"
    using handleScan_fulfilled_same by blast
  show ?thesis
    by (intro conjI 1 2 3)
qed

lemma race_eval:
  "race1 = (initialApp Map.empty)\<lparr>status := SCANNING,
      logs := [LogInitialized, LogWaiting, LogScanStart TF3d]\<rparr>"
  "race2 = (initialApp Map.empty)\<lparr>status := SCANNING,
      logs := [LogInitialized, LogWaiting, LogScanStart TF3d, LogScanStart TF3d]\<rparr>"
  by (simp_all add: race1_def race2_def handleScan_start_def loadCache_def initialApp_def
      addLog_def)

theorem stale_scan_discarded_by_window_witness:
  "activeTabRef (fst (handleScan_start noCoercion 0 21601000 TF7d False race1)) \<noteq> TF3d \<and>
   handleScan_fulfilled 21602000 TF3d raceA
     (fst (handleScan_start noCoercion 0 21601000 TF7d False race1)) =
     fst (handleScan_start noCoercion 0 21601000 TF7d False race1) \<and>
   handleScan_rejected TF3d ''network''
     (fst (handleScan_start noCoercion 0 21601000 TF7d False race1)) =
     (fst (handleScan_start noCoercion 0 21601000 TF7d False race1), None) \<and>
   activeTabRef race1 = TF3d \<and>
   repos (handleScan_fulfilled 21602000 TF3d raceA race1) = Some (reposJson raceA) \<and>
   localStorage (handleScan_fulfilled 21602000 TF3d raceA race1) (CACHE_PREFIX @ frameText TF3d)
     = Some (Json (cacheEntry raceA 21602000))"
proof -
  let ?s = "fst (handleScan_start noCoercion 0 21601000 TF7d False race1)"
  have a: "activeTabRef ?s \<noteq> TF3d"
    by (simp add: handleScan_start_ref)
  have b: "TF7d \<noteq> TF3d"
    by simp
  have c: "activeTabRef race1 = TF3d"
    by (simp add: race_eval initialApp_def)
  note t = stale_scan_discarded_by_window
    [of ?s TF3d 21602000 raceA "''network''" TF7d noCoercion 0 21601000 False]
  note u = stale_scan_discarded_by_window
    [of race1 TF3d 21602000 raceA "''network''" TF7d noCoercion 0 21601000 False]
  from t [THEN conjunct1, THEN mp, OF a] have d:
    "handleScan_fulfilled 21602000 TF3d raceA ?s = ?s"
    "handleScan_rejected TF3d ''network'' ?s = (?s, None)"
    by blast+
  from u [THEN conjunct2, THEN conjunct2, THEN mp, OF c] have e:
    "repos (handleScan_fulfilled 21602000 TF3d raceA race1) = Some (reposJson raceA)"
    "localStorage (handleScan_fulfilled 21602000 TF3d raceA race1)
       (CACHE_PREFIX @ frameText TF3d) = Some (Json (cacheEntry raceA 21602000))"
    by (simp_all add: JSON_stringify_def)
  show ?thesis
    by (intro conjI a d c e)
qed

text \<open>
  Claim C1 as stated fails for two scans of the same window. In the interleaving above
  the forced scan C has completed and its results are displayed and cached (\<open>race5\<close>),
  when the earlier, non-forced scan A completes: the pointer still equals \<open>3d\<close>, so A's
  results replace C's on display and in the cache (\<open>race6\<close>).
\<close>

theorem stale_scan_overwrites_forced_scan:
  "status race2 = SCANNING \<and> status race3 = COMPLETE \<and> activeTab race3 = TF3d \<and>
   repos race5 = Some (reposJson raceC) \<and>
   localStorage race5 (CACHE_PREFIX @ frameText TF3d) = Some (Json (cacheEntry raceC 21604000)) \<and>
   repos race6 = Some (reposJson raceA) \<and>
   localStorage race6 (CACHE_PREFIX @ frameText TF3d) = Some (Json (cacheEntry raceA 21605000)) \<and>
   reposJson raceA \<noteq> reposJson raceC"
proof -
  have 3: "race3 = (initialApp Map.empty)\<lparr>status := COMPLETE, repos := Some (reposJson raceB),
      lastUpdated := Some (JNum 21602000),
      localStorage := Map.empty(CACHE_PREFIX @ frameText TF3d \<mapsto> Json (cacheEntry raceB 21602000)),
      logs := [LogInitialized, LogWaiting, LogScanStart TF3d, LogScanStart TF3d,
        LogScanComplete 1]\<rparr>"
    by (simp add: race3_def race_eval handleScan_fulfilled_def saveCache_def initialApp_def
        addLog_def JSON_stringify_def raceB_def)
  have 4: "activeTabRef race4 = TF3d"
    by (simp add: race4_def handleScan_start_ref)
  have 5: "repos race5 = Some (reposJson raceC)"
    "localStorage race5 (CACHE_PREFIX @ frameText TF3d) = Some (Json (cacheEntry raceC 21604000))"
    "activeTabRef race5 = TF3d"
    using 4 by (simp_all add: race5_def handleScan_fulfilled_def saveCache_def addLog_def
        JSON_stringify_def)
  have 6: "repos race6 = Some (reposJson raceA)"
    "localStorage race6 (CACHE_PREFIX @ frameText TF3d) = Some (Json (cacheEntry raceA 21605000))"
    using 5(3) by (simp_all add: race6_def handleScan_fulfilled_def saveCache_def addLog_def
        JSON_stringify_def)
  have 7: "reposJson raceA \<noteq> reposJson raceC"
    by (simp add: raceA_def raceC_def reposJson_def repoToJson_def candidate_def)
  have 8: "status race2 = SCANNING" "status race3 = COMPLETE" "activeTab race3 = TF3d"
    by (simp_all add: race_eval 3 initialApp_def)
  show ?thesis
    by (intro conjI 8 5(1,2) 6 7)
qed

lemma handleScan_rejected_restores:
  assumes "activeTabRef s = frame"
    and "localStorage s (CACHE_PREFIX @ frameText frame) = Some (Json (JObj kvs))"
  shows "handleScan_rejected frame message s =
           (addLog LogStaleRestored
              ((addLog (LogFatal message) (s\<lparr>status := ERROR\<rparr>))
                 \<lparr>repos := map_of kvs ''data'',
                  lastUpdated := map_of kvs ''timestamp''\<rparr>),
            None)"
  using assms
  by (simp add: handleScan_rejected_def Let_def addLog_def emptyText_def JSON_parse_def
      getProp_def)

text \<open>
  Claim C7. When the scan for the active window fails, the status becomes ERROR and a
  persisted entry that parses to an object is displayed whatever its age (lemma
  \<open>handleScan_rejected_restores\<close>). A persisted entry that is not JSON is swallowed by
  \<open>loadCache\<close>, which returns \<open>null\<close>; but the fallback read in the \<open>catch\<close> block of
  \<open>handleScan\<close> parses it unguarded: at this input the \<open>SyntaxError\<close> leaves \<open>handleScan\<close>
  after the status is set, and no line about the entry is logged.
\<close>

theorem rejected_scan_throws_on_malformed_cache:
  "localStorage corruptApp (CACHE_PREFIX @ frameText TF3d) = Some (Malformed ''{oops'') \<and>
   loadCache noCoercion 0 21600000 TF3d corruptApp = (None, corruptApp) \<and>
   status corruptScanning = SCANNING \<and> activeTabRef corruptScanning = TF3d \<and>
   handleScan_rejected TF3d ''network'' corruptScanning =
     (addLog (LogFatal ''network'') (corruptScanning\<lparr>status := ERROR\<rparr>), Some SyntaxError)"
  by (simp add: corruptScanning_def corruptApp_def appWith_def handleScan_start_def
      handleScan_rejected_def loadCache_def initialApp_def addLog_def emptyText_def
      JSON_parse_def)

end
